theory Spec2Isabelle
  imports Complex_Main "HOL-Library.AList" "HOL-Library.Char_ord" "HOL-Library.List_Lexorder"
begin

section \<open>Strings and POSIX paths\<close>

text \<open>
  Python strings are modelled as \<open>string\<close>; with \<open>Char_ord\<close> and \<open>List_Lexorder\<close> the
  order on \<open>string\<close> is the lexicographic order that \<open>sorted\<close> uses on \<open>str\<close>.
  The helpers below follow \<open>str.split\<close>, \<open>str.join\<close>, \<open>str.startswith\<close>,
  \<open>str.lstrip\<close>, \<open>str.rstrip\<close> and \<open>str.replace\<close> on single characters.
\<close>

fun split_str :: "char \<Rightarrow> string \<Rightarrow> string list" where
  "split_str sep [] = [[]]"
| "split_str sep (c # cs) =
     (if c = sep then [] # split_str sep cs
      else (case split_str sep cs of [] \<Rightarrow> [[c]] | w # ws \<Rightarrow> (c # w) # ws))"

fun join_str :: "string \<Rightarrow> string list \<Rightarrow> string" where
  "join_str sep [] = []"
| "join_str sep [x] = x"
| "join_str sep (x # y # ys) = x @ sep @ join_str sep (y # ys)"

definition startswith :: "string \<Rightarrow> string \<Rightarrow> bool" where
  "startswith s p = (take (length p) s = p)"

definition lstrip :: "char set \<Rightarrow> string \<Rightarrow> string" where
  "lstrip cs s = dropWhile (\<lambda>c. c \<in> cs) s"

definition rstrip :: "char set \<Rightarrow> string \<Rightarrow> string" where
  "rstrip cs s = rev (dropWhile (\<lambda>c. c \<in> cs) (rev s))"

definition replace_backslash :: "string \<Rightarrow> string" where
  "replace_backslash s = map (\<lambda>c. if c = CHR 0x5C then CHR ''/'' else c) s"

text \<open>\<open>posixpath.normpath\<close>: the loop over the components, then the leading slashes.\<close>

fun norm_comps :: "bool \<Rightarrow> string list \<Rightarrow> string list \<Rightarrow> string list" where
  "norm_comps sl [] new_comps = new_comps"
| "norm_comps sl (part # comps) new_comps =
     (if part = [] \<or> part = ''.'' then norm_comps sl comps new_comps
      else if part \<noteq> ''..'' \<or> (\<not> sl \<and> new_comps = [])
                \<or> (new_comps \<noteq> [] \<and> last new_comps = ''..'')
        then norm_comps sl comps (new_comps @ [part])
      else if new_comps \<noteq> [] then norm_comps sl comps (butlast new_comps)
      else norm_comps sl comps new_comps)"

definition normpath :: "string \<Rightarrow> string" where
  "normpath path =
     (if path = [] then ''.''
      else let initial_slashes =
                 (if startswith path ''//'' \<and> \<not> startswith path ''///'' then 2
                  else if startswith path ''/'' then 1 else (0::nat));
               comps = norm_comps (initial_slashes \<noteq> 0) (split_str CHR ''/'' path) [];
               p = replicate initial_slashes CHR ''/'' @ join_str ''/'' comps
           in if p = [] then ''.'' else p)"

section \<open>Glob matching (\<open>fnmatch\<close>) and \<open>os.path\<close>\<close>

text \<open>
  \<open>fnmatch.fnmatch\<close> on POSIX: the pattern is read left to right into tokens, \<open>*\<close> for
  any run of characters (\<open>/\<close> included), \<open>?\<close> for one character, \<open>[seq]\<close> and \<open>[!seq]\<close>
  for a character class with ranges, any other character for itself; a \<open>[\<close> with no closing
  \<open>]\<close> stands for itself. The whole name must match.
\<close>

datatype glob_tok = Star | AnyChar | Lit char | CharClass bool string

definition class_stuff :: "string \<Rightarrow> string option" where
  "class_stuff cs =
     (let neg = (if take 1 cs = ''!'' then ''!'' else []);
          r1 = drop (length neg) cs;
          first = (if take 1 r1 = '']'' then '']'' else []);
          r2 = drop (length first) r1;
          body = takeWhile (\<lambda>c. c \<noteq> CHR '']'') r2
      in if length body < length r2 then Some (neg @ first @ body) else None)"

fun translate :: "nat \<Rightarrow> string \<Rightarrow> glob_tok list" where
  "translate skip [] = []"
| "translate skip (c # cs) =
     (if 0 < skip then translate (skip - 1) cs
      else if c = CHR ''*'' then Star # translate 0 cs
      else if c = CHR ''?'' then AnyChar # translate 0 cs
      else if c = CHR ''['' then
        (case class_stuff cs of
           None \<Rightarrow> Lit c # translate 0 cs
         | Some stuff \<Rightarrow>
             (if take 1 stuff = ''!'' then CharClass True (drop 1 stuff)
              else CharClass False stuff) # translate (length stuff + 1) cs)
      else Lit c # translate 0 cs)"

fun in_class :: "string \<Rightarrow> char \<Rightarrow> bool" where
  "in_class (lo # m # hi # rest) c =
     (if m = CHR ''-'' then (lo \<le> c \<and> c \<le> hi) \<or> in_class rest c
      else c = lo \<or> in_class (m # hi # rest) c)"
| "in_class (x # rest) c = (c = x \<or> in_class rest c)"
| "in_class [] c = False"

fun glob_match :: "glob_tok list \<Rightarrow> string \<Rightarrow> bool" where
  "glob_match [] s = (s = [])"
| "glob_match (Star # ts) s =
     (glob_match ts s \<or> (case s of [] \<Rightarrow> False | c # cs \<Rightarrow> glob_match (Star # ts) cs))"
| "glob_match (AnyChar # ts) s = (case s of [] \<Rightarrow> False | c # cs \<Rightarrow> glob_match ts cs)"
| "glob_match (Lit x # ts) s = (case s of [] \<Rightarrow> False | c # cs \<Rightarrow> c = x \<and> glob_match ts cs)"
| "glob_match (CharClass neg stuff # ts) s =
     (case s of [] \<Rightarrow> False | c # cs \<Rightarrow> (in_class stuff c \<noteq> neg) \<and> glob_match ts cs)"

definition fnmatch :: "string \<Rightarrow> string \<Rightarrow> bool" where
  "fnmatch name pat = glob_match (translate 0 pat) name"

text \<open>
  \<open>posixpath\<close>: \<open>join\<close>, \<open>dirname\<close>, \<open>abspath\<close> and \<open>relpath\<close>. The environment holds the
  working directory and the file system, a tree of directories and regular files with
  their \<open>stat\<close> data (size, creation time, modification time). \<open>relpath\<close> raises
  \<open>ValueError\<close> on the empty path: the model returns \<open>None\<close>.
\<close>

datatype fs_node = FsFile nat real real | FsDir "(string \<times> fs_node) list"

record env =
  cwd :: string
  fs :: fs_node

definition path_join :: "string \<Rightarrow> string \<Rightarrow> string" where
  "path_join a b =
     (if startswith b ''/'' then b
      else if a = [] \<or> (a \<noteq> [] \<and> last a = CHR ''/'') then a @ b
      else a @ ''/'' @ b)"

definition dirname :: "string \<Rightarrow> string" where
  "dirname p =
     (let head = rev (dropWhile (\<lambda>c. c \<noteq> CHR ''/'') (rev p))
      in if head \<noteq> [] \<and> head \<noteq> replicate (length head) CHR ''/''
         then rstrip {CHR ''/''} head else head)"

definition abspath :: "env \<Rightarrow> string \<Rightarrow> string" where
  "abspath e path = normpath (if startswith path ''/'' then path else path_join (cwd e) path)"

fun commonprefix :: "string list \<Rightarrow> string list \<Rightarrow> string list" where
  "commonprefix (x # xs) (y # ys) = (if x = y then x # commonprefix xs ys else [])"
| "commonprefix xs ys = []"

definition relpath :: "env \<Rightarrow> string \<Rightarrow> string \<Rightarrow> string option" where
  "relpath e path start =
     (if path = [] then None
      else
        let start_list = filter (\<lambda>x. x \<noteq> []) (split_str CHR ''/'' (abspath e start));
            path_list = filter (\<lambda>x. x \<noteq> []) (split_str CHR ''/'' (abspath e path));
            i = length (commonprefix start_list path_list);
            rel_list = replicate (length start_list - i) ''..'' @ drop i path_list
        in if rel_list = [] then Some ''.'' else Some (join_str ''/'' rel_list))"

fun fs_lookup :: "fs_node \<Rightarrow> string list \<Rightarrow> fs_node option" where
  "fs_lookup node [] = Some node"
| "fs_lookup (FsFile sz ct mt) (c # cs) = None"
| "fs_lookup (FsDir entries) (c # cs) =
     (case map_of entries c of None \<Rightarrow> None | Some node \<Rightarrow> fs_lookup node cs)"

definition fs_node_at :: "env \<Rightarrow> string \<Rightarrow> fs_node option" where
  "fs_node_at e abs_path = fs_lookup (fs e) (filter (\<lambda>x. x \<noteq> []) (split_str CHR ''/'' abs_path))"

text \<open>\<open>os.walk\<close>, top down: one triple per directory, then the subdirectories in order.\<close>

fun walk :: "string \<Rightarrow> (string \<times> fs_node) list \<Rightarrow> (string \<times> string list \<times> string list) list"
  and walk_subdirs :: "string \<Rightarrow> (string \<times> fs_node) list \<Rightarrow> (string \<times> string list \<times> string list) list"
  where
  "walk dirpath entries =
     (dirpath, map fst (filter (\<lambda>(n, node). case node of FsDir es \<Rightarrow> True | FsFile sz ct mt \<Rightarrow> False) entries),
           map fst (filter (\<lambda>(n, node). case node of FsDir es \<Rightarrow> False | FsFile sz ct mt \<Rightarrow> True) entries))
     # walk_subdirs dirpath entries"
| "walk_subdirs dirpath [] = []"
| "walk_subdirs dirpath ((n, FsFile sz ct mt) # rest) = walk_subdirs dirpath rest"
| "walk_subdirs dirpath ((n, FsDir es) # rest) = walk (path_join dirpath n) es @ walk_subdirs dirpath rest"

text \<open>
  Exceptions are data: \<open>Raised e s\<close> carries the state as the raise leaves it.
  \<open>ValueError\<close> and \<open>KeyError\<close> carry the offending key or the message.
\<close>

datatype error = ValueError string | KeyError string | RecursionError

datatype 'a outcome = Ok 'a | Raised error 'a

section \<open>The file inventory (\<open>core/file_manager.py\<close>)\<close>

text \<open>
  \<open>FileManager\<close>. The \<open>files\<close> dictionary is an association list in insertion order, the
  \<open>directories\<close> set a list without repetition (its order stands for the iteration order
  of the set). A callback is a function from the notification and the state of the world
  outside the manager to the new state of that world, returning or raising an exception
  with its message. \<open>emitted\<close> records every call of \<open>_notify_file_change\<close>, \<open>stdout\<close> the
  lines that the exception handlers print, \<open>storage\<close> the content of \<open>files.json\<close>.
\<close>

record file_info =
  file_size :: nat
  created_time :: real
  modified_time :: real
  relative_path :: string

type_synonym notification = "string \<times> string \<times> string option"

datatype 'w cb_result = Returns 'w | Raises string 'w

record snapshot =
  s_root_dir :: "string option"
  s_files :: "(string \<times> file_info) list option"
  s_directories :: "string list option"
  s_include_patterns :: "string list option"
  s_exclude_patterns :: "string list option"
  s_recursive :: "bool option"

record 'w manager =
  root_dir :: string
  storage :: "snapshot option"
  files :: "(string \<times> file_info) list"
  directories :: "string list"
  include_patterns :: "string list"
  exclude_patterns :: "string list"
  recursive :: bool
  file_change_callbacks :: "(notification \<Rightarrow> 'w \<Rightarrow> 'w cb_result) list"
  world :: 'w
  emitted :: "notification list"
  stdout :: "string list"

record event =
  src_path :: string
  dest_path :: string
  is_directory :: bool

subsection \<open>The pattern engine\<close>

text \<open>
  The inner loop over \<open>range(len(path_parts))\<close>: does the pattern match
  \<open>'/'.join(path_parts[i:])\<close> for some \<open>i\<close>?
\<close>

fun sub_path_loop :: "string list \<Rightarrow> string \<Rightarrow> bool" where
  "sub_path_loop [] pattern = False"
| "sub_path_loop (part # parts) pattern =
     (if fnmatch (join_str ''/'' (part # parts)) pattern then True
      else sub_path_loop parts pattern)"

text \<open>The split of \<open>include_patterns\<close> into reinclude patterns and normal ones.\<close>

fun reinclude_patterns :: "string list \<Rightarrow> string list" where
  "reinclude_patterns [] = []"
| "reinclude_patterns (pattern # rest) =
     (let p = replace_backslash pattern
      in if startswith p ''!!'' then drop 2 p # reinclude_patterns rest
         else reinclude_patterns rest)"

fun normal_include_patterns :: "string list \<Rightarrow> string list" where
  "normal_include_patterns [] = []"
| "normal_include_patterns (pattern # rest) =
     (let p = replace_backslash pattern
      in if startswith p ''!!'' then normal_include_patterns rest
         else p # normal_include_patterns rest)"

text \<open>
  The exclude loop of \<open>_should_include_file\<close>, with the flag \<open>is_excluded\<close>: a match
  of an unanchored pattern leaves the inner loop only, a match of an anchored pattern
  leaves the loop over the patterns.
\<close>

fun exclude_loop :: "string \<Rightarrow> string list \<Rightarrow> bool \<Rightarrow> bool" where
  "exclude_loop rel_path [] is_excluded = is_excluded"
| "exclude_loop rel_path (pattern # rest) is_excluded =
     (let p = lstrip {CHR ''!''} (replace_backslash pattern)
      in if \<not> startswith p ''/''
         then exclude_loop rel_path rest
                (if sub_path_loop (split_str CHR ''/'' rel_path) p then True else is_excluded)
         else if fnmatch rel_path (lstrip {CHR ''/''} p) then True
         else exclude_loop rel_path rest is_excluded)"

text \<open>
  The loops over the reinclude patterns and over the normal include patterns have the
  same body: \<open>return True\<close> at the first match, \<open>return False\<close> after the loop.
\<close>

fun include_loop :: "string \<Rightarrow> string list \<Rightarrow> bool" where
  "include_loop rel_path [] = False"
| "include_loop rel_path (pattern # rest) =
     (if \<not> startswith pattern ''/''
      then (if sub_path_loop (split_str CHR ''/'' rel_path) pattern then True
            else include_loop rel_path rest)
      else if fnmatch rel_path (lstrip {CHR ''/''} pattern) then True
      else include_loop rel_path rest)"

definition file_decision :: "string list \<Rightarrow> string list \<Rightarrow> string \<Rightarrow> bool" where
  "file_decision includes excludes rel =
     (let rel_path = replace_backslash rel
      in if exclude_loop rel_path excludes False
         then include_loop rel_path (reinclude_patterns includes)
         else include_loop rel_path (normal_include_patterns includes))"

definition should_include_file :: "env \<Rightarrow> ('w, 'z) manager_scheme \<Rightarrow> string \<Rightarrow> bool option" where
  "should_include_file e st file_path =
     map_option (file_decision (include_patterns st) (exclude_patterns st))
       (relpath e file_path (root_dir st))"

text \<open>
  \<open>_should_include_directory\<close>. The loop over the path parts builds \<open>current_path\<close>, the
  directory and each of its parents; the check of the include patterns is the same in both
  branches of the exclude loop. \<open>None\<close> from the exclude loop: no \<open>return\<close> was reached.
\<close>

fun current_path_loop :: "string \<Rightarrow> string list \<Rightarrow> string \<Rightarrow> bool" where
  "current_path_loop current_path [] pattern = False"
| "current_path_loop current_path (part # parts) pattern =
     (let current = (if current_path \<noteq> [] then current_path @ ''/'' else current_path) @ part
      in if fnmatch current pattern then True else current_path_loop current parts pattern)"

fun dir_include_check :: "string \<Rightarrow> string list \<Rightarrow> bool" where
  "dir_include_check rel_path [] = False"
| "dir_include_check rel_path (include_pattern # rest) =
     (let p = replace_backslash include_pattern
      in if fnmatch rel_path (rstrip {CHR ''/'', CHR ''*''} p) then True
         else if fnmatch (rel_path @ ''/*'') p then True
         else dir_include_check rel_path rest)"

fun dir_exclude_loop :: "string \<Rightarrow> string list \<Rightarrow> string list \<Rightarrow> bool option" where
  "dir_exclude_loop rel_path includes [] = None"
| "dir_exclude_loop rel_path includes (pattern # rest) =
     (let p = lstrip {CHR ''!''} (replace_backslash pattern)
      in if \<not> startswith p ''/''
         then (if current_path_loop [] (split_str CHR ''/'' rel_path)
                    (rstrip {CHR ''/'', CHR ''*''} p)
               then Some (dir_include_check rel_path includes)
               else dir_exclude_loop rel_path includes rest)
         else (if fnmatch rel_path (rstrip {CHR ''/'', CHR ''*''} (lstrip {CHR ''/''} p))
               then Some (dir_include_check rel_path includes)
               else dir_exclude_loop rel_path includes rest))"

fun dir_include_loop :: "string \<Rightarrow> string list \<Rightarrow> bool" where
  "dir_include_loop rel_path [] = False"
| "dir_include_loop rel_path (pattern # rest) =
     (let p = replace_backslash pattern
      in if \<not> startswith p ''/''
         then (if sub_path_loop (split_str CHR ''/'' rel_path) (rstrip {CHR ''/'', CHR ''*''} p)
               then True else dir_include_loop rel_path rest)
         else if fnmatch rel_path (rstrip {CHR ''/'', CHR ''*''} (lstrip {CHR ''/''} p)) then True
         else dir_include_loop rel_path rest)"

definition directory_decision :: "string list \<Rightarrow> string list \<Rightarrow> string \<Rightarrow> bool" where
  "directory_decision includes excludes rel =
     (let rel_path = replace_backslash rel
      in case dir_exclude_loop rel_path includes excludes of
           Some b \<Rightarrow> b
         | None \<Rightarrow> if dir_include_loop rel_path includes then True else True)"

definition should_include_directory :: "env \<Rightarrow> ('w, 'z) manager_scheme \<Rightarrow> string \<Rightarrow> bool option" where
  "should_include_directory e st dir_path =
     map_option (directory_decision (include_patterns st) (exclude_patterns st))
       (relpath e dir_path (root_dir st))"

subsection \<open>Notification, persistence and the index\<close>

text \<open>
  \<open>_notify_file_change\<close>: every callback is called in the order of the list, inside
  \<open>try\<close>; \<open>except Exception\<close> prints a line and the loop goes on.
\<close>

fun run_callbacks ::
  "(notification \<Rightarrow> 'w \<Rightarrow> 'w cb_result) list \<Rightarrow> notification \<Rightarrow> 'w \<times> string list \<Rightarrow> 'w \<times> string list" where
  "run_callbacks [] n (w, out) = (w, out)"
| "run_callbacks (callback # rest) n (w, out) =
     (case callback n w of
        Returns w' \<Rightarrow> run_callbacks rest n (w', out)
      | Raises msg w' \<Rightarrow> run_callbacks rest n (w', out @ [''Error in file change callback: '' @ msg]))"

definition notify_file_change ::
  "'w manager \<Rightarrow> string \<Rightarrow> string \<Rightarrow> string option \<Rightarrow> 'w manager" where
  "notify_file_change st event_type src dst =
     (let r = run_callbacks (file_change_callbacks st) (event_type, src, dst) (world st, stdout st)
      in st\<lparr>world := fst r, stdout := snd r, emitted := emitted st @ [(event_type, src, dst)]\<rparr>)"

definition save_data :: "'w manager \<Rightarrow> 'w manager" where
  "save_data st =
     st\<lparr>storage := Some \<lparr>s_root_dir = Some (root_dir st), s_files = Some (files st),
                          s_directories = Some (directories st),
                          s_include_patterns = Some (include_patterns st),
                          s_exclude_patterns = Some (exclude_patterns st),
                          s_recursive = Some (recursive st)\<rparr>\<rparr>"

definition load_data :: "'w manager \<Rightarrow> 'w manager" where
  "load_data st =
     (case storage st of
        None \<Rightarrow> st
      | Some data \<Rightarrow>
          if s_root_dir data = Some (root_dir st) then
            let st1 = st\<lparr>files := (case s_files data of Some f \<Rightarrow> f | None \<Rightarrow> []),
                         directories := remdups (case s_directories data of Some d \<Rightarrow> d | None \<Rightarrow> [])\<rparr>;
                st2 = (if include_patterns st1 = [] \<or> include_patterns st1 = [''*'']
                       then st1\<lparr>include_patterns :=
                                  (case s_include_patterns data of Some p \<Rightarrow> p | None \<Rightarrow> [''*''])\<rparr>
                       else st1);
                st3 = (if exclude_patterns st2 = []
                       then st2\<lparr>exclude_patterns :=
                                  (case s_exclude_patterns data of Some p \<Rightarrow> p | None \<Rightarrow> [])\<rparr>
                       else st2)
            in st3\<lparr>recursive := (case s_recursive data of Some r \<Rightarrow> r | None \<Rightarrow> True)\<rparr>
          else st)"

text \<open>
  \<open>_add_file\<close>: the record is written only if the path exists and is a regular file; an
  exception inside is printed.
\<close>

definition add_file :: "env \<Rightarrow> 'w manager \<Rightarrow> string \<Rightarrow> 'w manager" where
  "add_file e st file_path =
     (let abs_path = abspath e file_path
      in case fs_node_at e abs_path of
           Some (FsFile sz ct mt) \<Rightarrow>
             (case relpath e abs_path (root_dir st) of
                None \<Rightarrow> st\<lparr>stdout := stdout st @ [''Error adding file '' @ file_path @ '': no path specified'']\<rparr>
              | Some rel_path \<Rightarrow>
                  save_data (st\<lparr>files := AList.update abs_path
                       \<lparr>file_size = sz, created_time = ct, modified_time = mt, relative_path = rel_path\<rparr>
                       (files st)\<rparr>))
         | _ \<Rightarrow> st)"

definition add_directory :: "env \<Rightarrow> 'w manager \<Rightarrow> string \<Rightarrow> 'w manager" where
  "add_directory e st dir_path =
     (let abs_path = abspath e dir_path
      in case fs_node_at e abs_path of
           Some (FsDir es) \<Rightarrow>
             if recursive st \<or> dirname abs_path = root_dir st then
               (case should_include_directory e st abs_path of
                  None \<Rightarrow> st\<lparr>stdout := stdout st @ [''Error adding directory '' @ dir_path @ '': no path specified'']\<rparr>
                | Some True \<Rightarrow>
                    save_data (notify_file_change (st\<lparr>directories := List.insert abs_path (directories st)\<rparr>)
                                 ''directory_created'' abs_path None)
                | Some False \<Rightarrow> st)
             else st
         | _ \<Rightarrow> st)"

text \<open>The two removal loops, shared by \<open>_remove_directory\<close> and \<open>on_deleted\<close>.\<close>

fun remove_files_loop :: "'w manager \<Rightarrow> string list \<Rightarrow> 'w manager" where
  "remove_files_loop st [] = st"
| "remove_files_loop st (file_path # rest) =
     remove_files_loop
       (notify_file_change (st\<lparr>files := AList.delete file_path (files st)\<rparr>) ''deleted'' file_path None)
       rest"

fun remove_subdirs_loop :: "(string \<Rightarrow> bool) \<Rightarrow> 'w manager \<Rightarrow> string list \<Rightarrow> 'w manager" where
  "remove_subdirs_loop guard st [] = st"
| "remove_subdirs_loop guard st (subdir # rest) =
     (if guard subdir
      then remove_subdirs_loop guard
             (notify_file_change (st\<lparr>directories := removeAll subdir (directories st)\<rparr>)
                ''directory_deleted'' subdir None)
             rest
      else remove_subdirs_loop guard st rest)"

definition remove_directory :: "env \<Rightarrow> 'w manager \<Rightarrow> string \<Rightarrow> 'w manager" where
  "remove_directory e st directory0 =
     (let directory = abspath e directory0;
          files_to_remove = filter (\<lambda>f. startswith f directory) (map fst (files st));
          st1 = remove_files_loop st files_to_remove;
          subdirs_to_remove = filter (\<lambda>d. startswith d directory) (directories st1);
          st2 = fold (\<lambda>subdir s.
                   if subdir \<in> set (directories s)
                   then notify_file_change (s\<lparr>directories := removeAll subdir (directories s)\<rparr>)
                          ''directory_deleted'' subdir None
                   else s) subdirs_to_remove st1;
          st3 = (if directory \<in> set (directories st2)
                 then notify_file_change (st2\<lparr>directories := removeAll directory (directories st2)\<rparr>)
                        ''directory_deleted'' directory None
                 else st2)
      in save_data st3)"

subsection \<open>The scan\<close>

fun scan_dirs_loop :: "env \<Rightarrow> string \<Rightarrow> string \<Rightarrow> string list \<Rightarrow> 'w manager \<Rightarrow> 'w manager outcome" where
  "scan_dirs_loop e directory root_path [] st = Ok st"
| "scan_dirs_loop e directory root_path (dir_name # rest) st =
     (let dir_path = abspath e (path_join root_path dir_name)
      in if recursive st \<or> dirname dir_path = directory then
           (case should_include_directory e st dir_path of
              None \<Rightarrow> Raised (ValueError ''no path specified'') st
            | Some True \<Rightarrow>
                scan_dirs_loop e directory root_path rest
                  (notify_file_change (st\<lparr>directories := List.insert dir_path (directories st)\<rparr>)
                     ''directory_created'' dir_path None)
            | Some False \<Rightarrow> scan_dirs_loop e directory root_path rest st)
         else scan_dirs_loop e directory root_path rest st)"

fun scan_files_loop :: "env \<Rightarrow> string \<Rightarrow> string list \<Rightarrow> 'w manager \<Rightarrow> 'w manager outcome" where
  "scan_files_loop e root_path [] st = Ok st"
| "scan_files_loop e root_path (file_name # rest) st =
     (let file_path = abspath e (path_join root_path file_name)
      in case should_include_file e st file_path of
           None \<Rightarrow> Raised (ValueError ''no path specified'') st
         | Some True \<Rightarrow> scan_files_loop e root_path rest (add_file e st file_path)
         | Some False \<Rightarrow> scan_files_loop e root_path rest st)"

fun scan_walk_loop ::
  "env \<Rightarrow> string \<Rightarrow> (string \<times> string list \<times> string list) list \<Rightarrow> 'w manager \<Rightarrow> 'w manager outcome" where
  "scan_walk_loop e directory [] st = Ok st"
| "scan_walk_loop e directory ((root_path, dirs, file_names) # rest) st =
     (if \<not> recursive st \<and> root_path \<noteq> directory then scan_walk_loop e directory rest st
      else case scan_dirs_loop e directory root_path dirs st of
             Raised err st1 \<Rightarrow> Raised err st1
           | Ok st1 \<Rightarrow>
               (case scan_files_loop e root_path file_names st1 of
                  Raised err st2 \<Rightarrow> Raised err st2
                | Ok st2 \<Rightarrow> scan_walk_loop e directory rest st2))"

definition scan_directory :: "env \<Rightarrow> 'w manager \<Rightarrow> string \<Rightarrow> 'w manager outcome" where
  "scan_directory e st directory0 =
     (let directory = abspath e directory0;
          st1 = notify_file_change (st\<lparr>files := [], directories := [directory]\<rparr>)
                  ''directory_created'' directory None;
          triples = (case fs_node_at e directory of
                       Some (FsDir es) \<Rightarrow> walk directory es
                     | _ \<Rightarrow> [])
      in case scan_walk_loop e directory triples st1 of
           Raised err st2 \<Rightarrow> Raised err st2
         | Ok st2 \<Rightarrow> Ok (save_data st2))"

subsection \<open>The event handlers (\<open>FileEventHandler\<close>)\<close>


definition on_deleted :: "env \<Rightarrow> 'w manager \<Rightarrow> event \<Rightarrow> 'w manager" where
  "on_deleted e st ev =
     (let src = abspath e (src_path ev)
      in if src \<in> set (directories st) then
           (let files_to_remove = filter (\<lambda>f. startswith f src) (map fst (files st));
                st1 = remove_files_loop st files_to_remove;
                subdirs_to_remove = filter (\<lambda>d. startswith d src) (directories st1);
                st2 = remove_subdirs_loop (\<lambda>subdir. subdir \<noteq> src) st1 subdirs_to_remove;
                st3 = notify_file_change (st2\<lparr>directories := removeAll src (directories st2)\<rparr>)
                        ''directory_deleted'' src None
            in save_data st3)
         else if src \<in> fst ` set (files st) then
           save_data (notify_file_change (st\<lparr>files := AList.delete src (files st)\<rparr>) ''deleted'' src None)
         else st)"


definition on_moved :: "env \<Rightarrow> 'w manager \<Rightarrow> event \<Rightarrow> 'w manager outcome" where
  "on_moved e st ev =
     (let src = abspath e (src_path ev); dst = abspath e (dest_path ev)
      in if src \<in> set (directories st) then
           (let st1 = st\<lparr>directories := removeAll src (directories st)\<rparr>
            in if recursive st1 \<or> dirname dst = root_dir st1 then
                 (case should_include_directory e st1 dst of
                    None \<Rightarrow> Raised (ValueError ''no path specified'') st1
                  | Some True \<Rightarrow>
                      Ok (save_data (notify_file_change
                            (st1\<lparr>directories := List.insert dst (directories st1)\<rparr>)
                            ''directory_moved'' src (Some dst)))
                  | Some False \<Rightarrow> Ok (save_data (notify_file_change st1 ''directory_deleted'' src None)))
               else Ok (save_data (notify_file_change st1 ''directory_deleted'' src None)))
         else if src \<in> fst ` set (files st) then
           (let st1 = st\<lparr>files := AList.delete src (files st)\<rparr>
            in case should_include_file e st1 dst of
                 None \<Rightarrow> Raised (ValueError ''no path specified'') st1
               | Some True \<Rightarrow> Ok (save_data (notify_file_change (add_file e st1 dst) ''moved'' src (Some dst)))
               | Some False \<Rightarrow> Ok (save_data (notify_file_change st1 ''deleted'' src None)))
         else Ok st)"

section \<open>The tag store (\<open>core/tag_manager.py\<close>)\<close>

text \<open>
  \<open>Tag\<close> is the dataclass; \<open>TagManager\<close> holds the two dictionaries and the JSON file
  that \<open>_save_data\<close> rewrites. A dictionary is an association list in insertion order,
  a Python set of tag ids a HOL set. A raise is an outcome \<open>Raised e s\<close> with the manager
  as the raise leaves it; \<open>ValueError\<close> and \<open>KeyError\<close> carry the offending tag id.
\<close>

record tag =
  name :: string
  description :: string
  parent :: "string option"

record tag_manager =
  tags :: "(string \<times> tag) list"
  file_tags :: "(string \<times> string set) list"
  tags_file :: "((string \<times> tag) list \<times> (string \<times> string set) list) option"

definition tag_save_data :: "tag_manager \<Rightarrow> tag_manager" where
  "tag_save_data tm = tm\<lparr>tags_file := Some (tags tm, file_tags tm)\<rparr>"

text \<open>
  The loop of \<open>remove_tag\<close> over \<open>list(self.file_tags.keys())\<close>: every entry is visited
  once; the tag id is taken out of its set and an entry whose set became empty is deleted.
\<close>

fun detach_tag :: "string \<Rightarrow> (string \<times> string set) list \<Rightarrow> (string \<times> string set) list" where
  "detach_tag tag_id [] = []"
| "detach_tag tag_id ((file_path, ids) # rest) =
     (if tag_id \<in> ids
      then (if ids - {tag_id} = {} then detach_tag tag_id rest
            else (file_path, ids - {tag_id}) # detach_tag tag_id rest)
      else (file_path, ids) # detach_tag tag_id rest)"

text \<open>
  \<open>remove_tag\<close> calls itself for every child. The first argument bounds the depth of
  the call stack: at depth \<open>0\<close> the interpreter raises \<open>RecursionError\<close>.
\<close>

fun remove_tag :: "nat \<Rightarrow> tag_manager \<Rightarrow> string \<Rightarrow> tag_manager outcome"
  and remove_children :: "nat \<Rightarrow> tag_manager \<Rightarrow> string list \<Rightarrow> tag_manager outcome" where
  "remove_tag 0 tm tag_id = Raised RecursionError tm"
| "remove_tag (Suc depth) tm tag_id =
     (if tag_id \<notin> fst ` set (tags tm) then Raised (ValueError tag_id) tm
      else
        let child_tags = map fst (filter (\<lambda>(tid, t). parent t = Some tag_id) (tags tm)) in
        case remove_children depth tm child_tags of
          Raised e tm' \<Rightarrow> Raised e tm'
        | Ok tm' \<Rightarrow>
            let tm2 = tm'\<lparr>file_tags := detach_tag tag_id (file_tags tm')\<rparr> in
            if tag_id \<notin> fst ` set (tags tm2) then Raised (KeyError tag_id) tm2
            else Ok (tag_save_data (tm2\<lparr>tags := AList.delete tag_id (tags tm2)\<rparr>)))"
| "remove_children depth tm [] = Ok tm"
| "remove_children depth tm (child_id # rest) =
     (case remove_tag depth tm child_id of
        Raised e tm' \<Rightarrow> Raised e tm'
      | Ok tm' \<Rightarrow> remove_children depth tm' rest)"

definition add_tag_to_file :: "tag_manager \<Rightarrow> string \<Rightarrow> string \<Rightarrow> tag_manager outcome" where
  "add_tag_to_file tm file_path tag_id =
     (if tag_id \<notin> fst ` set (tags tm) then Raised (ValueError tag_id) tm
      else
        let fp = normpath file_path;
            ft = (if fp \<notin> fst ` set (file_tags tm)
                  then AList.update fp {} (file_tags tm) else file_tags tm)
        in Ok (tag_save_data (tm\<lparr>file_tags := AList.map_entry fp (insert tag_id) ft\<rparr>)))"

definition remove_tag_from_file :: "tag_manager \<Rightarrow> string \<Rightarrow> string \<Rightarrow> tag_manager" where
  "remove_tag_from_file tm file_path tag_id =
     (let fp = normpath file_path in
      case map_of (file_tags tm) fp of
        None \<Rightarrow> tm
      | Some ids \<Rightarrow>
          if tag_id \<in> ids
          then let ft = AList.map_entry fp (\<lambda>s. s - {tag_id}) (file_tags tm);
                   ft' = (if ids - {tag_id} = {} then AList.delete fp ft else ft)
               in tag_save_data (tm\<lparr>file_tags := ft'\<rparr>)
          else tm)"


text \<open>The state an outcome leaves behind, whether the call returned or raised.\<close>

fun state_of :: "'a outcome \<Rightarrow> 'a" where
  "state_of (Ok s) = s"
| "state_of (Raised e s) = s"

definition no_empty_tag_set :: "tag_manager \<Rightarrow> bool" where
  "no_empty_tag_set tm = list_all (\<lambda>(file_path, ids). ids \<noteq> {}) (file_tags tm)"

text \<open>
  The parent references as a relation from a tag id to the ids of its children, the
  descendants of a tag (the tag itself among them), and a file-tags map with a set of tag
  ids taken out of every entry, entries that lose their last id being dropped.
\<close>

definition children_rel :: "(string \<times> tag) list \<Rightarrow> (string \<times> string) set" where
  "children_rel tgs = {(p, c). \<exists>t. (c, t) \<in> set tgs \<and> parent t = Some p}"

definition descendants :: "(string \<times> tag) list \<Rightarrow> string \<Rightarrow> string set" where
  "descendants tgs tag_id = {c. (tag_id, c) \<in> (children_rel tgs)\<^sup>*}"

definition detach_all :: "string set \<Rightarrow> (string \<times> string set) list \<Rightarrow> (string \<times> string set) list" where
  "detach_all D ft =
     map (\<lambda>(file_path, ids). (file_path, ids - D))
       (filter (\<lambda>(file_path, ids). ids \<inter> D = {} \<or> ids - D \<noteq> {}) ft)"

definition tags_exist :: "tag_manager \<Rightarrow> bool" where
  "tags_exist tm = list_all (\<lambda>(file_path, ids). ids \<subseteq> fst ` set (tags tm)) (file_tags tm)"

text \<open>
  An example store: tag \<open>work\<close> with child \<open>draft\<close> and grandchild \<open>notes\<close>, an
  unrelated tag \<open>home\<close>, and three tagged files.
\<close>

definition example_tags :: tag_manager where
  "example_tags =
     \<lparr>tags = [(''work'', \<lparr>name = ''Work'', description = [], parent = None\<rparr>),
              (''draft'', \<lparr>name = ''Draft'', description = [], parent = Some ''work''\<rparr>),
              (''home'', \<lparr>name = ''Home'', description = [], parent = None\<rparr>),
              (''notes'', \<lparr>name = ''Notes'', description = [], parent = Some ''draft''\<rparr>)],
      file_tags = [(''/docs/a.txt'', {''work'', ''home''}),
                   (''/docs/b.txt'', {''draft''}),
                   (''/docs/c.txt'', {''notes'', ''draft'', ''home''})],
      tags_file = None\<rparr>"

text \<open>A store whose only file references a tag id that is not in the tag map.\<close>

definition example_dangling :: tag_manager where
  "example_dangling =
     \<lparr>tags = [(''work'', \<lparr>name = ''Work'', description = [], parent = None\<rparr>)],
      file_tags = [(''/docs/a.txt'', {''work'', ''ghost''})],
      tags_file = None\<rparr>"

text \<open>
  An example inventory under \<open>/root\<close>: the directory \<open>/root/proj\<close> holds three tracked
  files and two tracked subdirectories. Its first callback always raises, its second
  appends the notification to the world, a list of the notifications received.
\<close>

definition example_env :: env where
  "example_env = \<lparr>cwd = ''/home'', fs = FsDir []\<rparr>"

definition no_info :: file_info where
  "no_info = \<lparr>file_size = 4, created_time = 0, modified_time = 0, relative_path = []\<rparr>"

definition failing_callback :: "notification \<Rightarrow> notification list \<Rightarrow> notification list cb_result" where
  "failing_callback n w = Raises ''boom'' w"

definition recording_callback :: "notification \<Rightarrow> notification list \<Rightarrow> notification list cb_result" where
  "recording_callback n w = Returns (w @ [n])"

definition example_inventory :: "notification list manager" where
  "example_inventory =
     \<lparr>root_dir = ''/root'', storage = None,
      files = [(''/root/proj/a.txt'', no_info\<lparr>relative_path := ''proj/a.txt''\<rparr>),
               (''/root/notes.txt'', no_info\<lparr>relative_path := ''notes.txt''\<rparr>),
               (''/root/proj/src/b.txt'', no_info\<lparr>relative_path := ''proj/src/b.txt''\<rparr>),
               (''/root/proj/doc/c.txt'', no_info\<lparr>relative_path := ''proj/doc/c.txt''\<rparr>)],
      directories = [''/root'', ''/root/proj'', ''/root/proj/src'', ''/root/lib'', ''/root/proj/doc''],
      include_patterns = [''*.txt''], exclude_patterns = [], recursive = True,
      file_change_callbacks = [failing_callback, recording_callback],
      world = [], emitted = [], stdout = []\<rparr>"

definition deleted_proj :: event where
  "deleted_proj = \<lparr>src_path = ''/root/proj/'', dest_path = [], is_directory = True\<rparr>"


definition same_index :: "'a manager \<Rightarrow> 'b manager \<Rightarrow> bool" where
  "same_index s t =
     (root_dir s = root_dir t \<and> storage s = storage t \<and> files s = files t
      \<and> directories s = directories t \<and> include_patterns s = include_patterns t
      \<and> exclude_patterns s = exclude_patterns t \<and> recursive s = recursive t
      \<and> emitted s = emitted t)"

text \<open>
  Events on the example inventory, and an environment in which \<open>/root/todo.txt\<close> is a
  regular file on disk.
\<close>

definition example_env_todo :: env where
  "example_env_todo = \<lparr>cwd = ''/home'', fs = FsDir [(''root'', FsDir [(''todo.txt'', FsFile 7 1 2)])]\<rparr>"

definition moved_notes :: event where
  "moved_notes = \<lparr>src_path = ''/root/notes.txt'', dest_path = ''/root/todo.txt'', is_directory = False\<rparr>"

definition moved_notes_md :: event where
  "moved_notes_md = \<lparr>src_path = ''/root/notes.txt'', dest_path = ''/root/notes.md'', is_directory = False\<rparr>"

definition moved_proj :: event where
  "moved_proj = \<lparr>src_path = ''/root/proj'', dest_path = ''/root/work'', is_directory = True\<rparr>"

text \<open>
  Two managers about to load: one constructed with the default rules, one constructed with
  rules of its own.
\<close>

definition default_loader :: "unit manager" where
  "default_loader =
     \<lparr>root_dir = ''/root'', storage = None, files = [], directories = [],
      include_patterns = [''*''], exclude_patterns = [], recursive = False,
      file_change_callbacks = [], world = (), emitted = [], stdout = []\<rparr>"

definition python_loader :: "unit manager" where
  "python_loader = default_loader\<lparr>include_patterns := [''*.py''], exclude_patterns := [''build/*'']\<rparr>"

text \<open>
  Matching as the specification words it. For a file: an anchored pattern (leading \<open>/\<close>)
  is tested against the whole relative path, an unanchored one against every suffix of
  the path's segments. For a directory the code strips trailing \<open>/\<close> and \<open>*\<close> from the
  pattern and tests an unanchored exclude pattern against the directory and each of its
  parents, the values of \<open>current_path\<close>; an include pattern saves an excluded directory if
  it matches the directory (pattern stripped) or the form \<open>directory/*\<close>.
\<close>

definition pattern_matches :: "string \<Rightarrow> string \<Rightarrow> bool" where
  "pattern_matches rel_path pattern =
     (if startswith pattern ''/'' then fnmatch rel_path (lstrip {CHR ''/''} pattern)
      else list_ex (\<lambda>i. fnmatch (join_str ''/'' (drop i (split_str CHR ''/'' rel_path))) pattern)
             [0 ..< length (split_str CHR ''/'' rel_path)])"

fun current_paths :: "string \<Rightarrow> string list \<Rightarrow> string list" where
  "current_paths current_path [] = []"
| "current_paths current_path (part # parts) =
     (let current = (if current_path \<noteq> [] then current_path @ ''/'' else current_path) @ part
      in current # current_paths current parts)"

definition dir_pattern_hits :: "string \<Rightarrow> string \<Rightarrow> bool" where
  "dir_pattern_hits rel_path pattern =
     (if startswith pattern ''/''
      then fnmatch rel_path (rstrip {CHR ''/'', CHR ''*''} (lstrip {CHR ''/''} pattern))
      else list_ex (\<lambda>c. fnmatch c (rstrip {CHR ''/'', CHR ''*''} pattern))
             (current_paths [] (split_str CHR ''/'' rel_path)))"

definition dir_include_hits :: "string \<Rightarrow> string \<Rightarrow> bool" where
  "dir_include_hits rel_path pattern =
     (fnmatch rel_path (rstrip {CHR ''/'', CHR ''*''} pattern) \<or> fnmatch (rel_path @ ''/*'') pattern)"

text \<open>
  Managers for the examples of the pattern engine, and a file system with \<open>/root/docs/x.py\<close>
  and \<open>/root/a.txt\<close>.
\<close>

definition temp_rules :: "unit manager" where
  "temp_rules = default_loader\<lparr>include_patterns := [''!!temp/keep/*''],
                                exclude_patterns := [''temp/*''], recursive := True\<rparr>"

definition python_only :: "unit manager" where
  "python_only = default_loader\<lparr>include_patterns := [''*.py''], recursive := True\<rparr>"

definition python_without_temp :: "unit manager" where
  "python_without_temp = default_loader\<lparr>include_patterns := [''*.py''],
                                         exclude_patterns := [''temp''], recursive := True\<rparr>"

definition example_env_docs :: env where
  "example_env_docs =
     \<lparr>cwd = ''/home'',
      fs = FsDir [(''root'', FsDir [(''docs'', FsDir [(''x.py'', FsFile 12 3 4)]),
                                   (''a.txt'', FsFile 5 1 1)])]\<rparr>"

section \<open>Properties of the tag store\<close>

lemma detach_tag_no_empty:
  "list_all (\<lambda>(f, ids). ids \<noteq> {}) ft \<Longrightarrow> list_all (\<lambda>(f, ids). ids \<noteq> {}) (detach_tag t ft)"
  by (induction t ft rule: detach_tag.induct) auto

lemma remove_tag_no_empty:
  "no_empty_tag_set tm \<Longrightarrow> no_empty_tag_set (state_of (remove_tag depth tm t))"
  "no_empty_tag_set tm \<Longrightarrow> no_empty_tag_set (state_of (remove_children depth tm cs))"
proof (induction depth tm t and depth tm cs rule: remove_tag_remove_children.induct)
  case (1 tm tag_id)
  then show ?case by simp
next
  case (2 depth tm tag_id)
  show ?case
  proof (cases "tag_id \<in> fst ` set (tags tm)")
    case False
    then show ?thesis using "2.prems" by simp
  next
    case True
    define cs where "cs = map fst (filter (\<lambda>(tid, t). parent t = Some tag_id) (tags tm))"
    have IH: "no_empty_tag_set (state_of (remove_children depth tm cs))"
      using "2.IH" True "2.prems" cs_def by simp
    show ?thesis
      using True IH unfolding cs_def
      by (cases "remove_children depth tm
                   (map fst (filter (\<lambda>(tid, t). parent t = Some tag_id) (tags tm)))")
         (auto simp: no_empty_tag_set_def tag_save_data_def Let_def detach_tag_no_empty)
  qed
next
  case (3 depth tm)
  then show ?case by simp
next
  case (4 depth tm child_id rest)
  have IH1: "no_empty_tag_set (state_of (remove_tag depth tm child_id))"
    using "4.IH"(1) "4.prems" by simp
  show ?case
  proof (cases "remove_tag depth tm child_id")
    case (Ok tm')
    then show ?thesis using IH1 "4.IH"(2) by simp
  next
    case (Raised e tm')
    then show ?thesis using IH1 by simp
  qed
qed

lemma map_entry_insert_no_empty:
  "list_all (\<lambda>(f, ids). ids \<noteq> {}) ft \<Longrightarrow>
   list_all (\<lambda>(f, ids). ids \<noteq> {}) (AList.map_entry k (insert t) ft)"
  by (induction ft) auto

lemma map_entry_update_fresh_no_empty:
  "list_all (\<lambda>(f, ids). ids \<noteq> {}) ft \<Longrightarrow> k \<notin> fst ` set ft \<Longrightarrow>
   list_all (\<lambda>(f, ids). ids \<noteq> {}) (AList.map_entry k (insert t) (AList.update k {} ft))"
  by (induction ft) auto

lemma add_tag_no_empty:
  "no_empty_tag_set tm \<Longrightarrow> no_empty_tag_set (state_of (add_tag_to_file tm fp t))"
  by (simp add: add_tag_to_file_def no_empty_tag_set_def tag_save_data_def Let_def
      map_entry_insert_no_empty map_entry_update_fresh_no_empty)

lemma delete_map_entry: "AList.delete k (AList.map_entry k g ft) = AList.delete k ft"
  by (induction ft) auto

lemma delete_no_empty:
  "list_all (\<lambda>(f, ids). ids \<noteq> {}) ft \<Longrightarrow> list_all (\<lambda>(f, ids). ids \<noteq> {}) (AList.delete k ft)"
  by (induction ft) auto

lemma map_entry_diff_no_empty:
  "list_all (\<lambda>(f, ids). ids \<noteq> {}) ft \<Longrightarrow> map_of ft k = Some ids \<Longrightarrow> ids - {t} \<noteq> {} \<Longrightarrow>
   list_all (\<lambda>(f, ids). ids \<noteq> {}) (AList.map_entry k (\<lambda>s. s - {t}) ft)"
  by (induction ft) (auto split: if_splits)

lemma remove_from_file_no_empty:
  "no_empty_tag_set tm \<Longrightarrow> no_empty_tag_set (remove_tag_from_file tm fp t)"
  by (auto simp: remove_tag_from_file_def no_empty_tag_set_def tag_save_data_def Let_def
      delete_no_empty delete_map_entry map_entry_diff_no_empty split: option.splits)

lemma remove_last_deletes_entry:
  "map_of (file_tags tm) (normpath fp) = Some {t} \<Longrightarrow>
   normpath fp \<notin> fst ` set (file_tags (remove_tag_from_file tm fp t))"
  by (simp add: remove_tag_from_file_def tag_save_data_def Let_def delete_map_entry)
     (auto simp: AList.delete_eq)

text \<open>
  Claim C10. If no entry of the file-tags map has an empty tag set, then none has after
  \<open>add_tag_to_file\<close>, \<open>remove_tag_from_file\<close> or \<open>remove_tag\<close>, whether the call
  returns or raises; and when \<open>remove_tag_from_file\<close> takes the last tag id out of a
  file's set, the file's entry is gone from the map.
\<close>

theorem tag_mutations_keep_no_empty_tag_set:
  assumes "no_empty_tag_set tm"
  shows "no_empty_tag_set (state_of (add_tag_to_file tm file_path tag_id))
       \<and> no_empty_tag_set (remove_tag_from_file tm file_path tag_id)
       \<and> no_empty_tag_set (state_of (remove_tag depth tm tag_id))
       \<and> (map_of (file_tags tm) (normpath file_path) = Some {tag_id} \<longrightarrow>
            normpath file_path \<notin> fst ` set (file_tags (remove_tag_from_file tm file_path tag_id)))"
  using assms add_tag_no_empty remove_from_file_no_empty remove_tag_no_empty(1)
    remove_last_deletes_entry by blast

theorem tag_mutations_keep_no_empty_tag_set_witness:
  "no_empty_tag_set example_tags
   \<and> map_of (file_tags example_tags) (normpath ''/docs//b.txt'') = Some {''draft''}
   \<and> no_empty_tag_set (state_of (add_tag_to_file example_tags ''/docs//b.txt'' ''draft''))
   \<and> no_empty_tag_set (remove_tag_from_file example_tags ''/docs//b.txt'' ''draft'')
   \<and> no_empty_tag_set (state_of (remove_tag 3 example_tags ''draft''))
   \<and> normpath ''/docs//b.txt''
        \<notin> fst ` set (file_tags (remove_tag_from_file example_tags ''/docs//b.txt'' ''draft''))"
proof -
  have h: "no_empty_tag_set example_tags"
    by (simp add: no_empty_tag_set_def example_tags_def)
  have n: "normpath ''/docs//b.txt'' = ''/docs/b.txt''"
    by (simp add: normpath_def startswith_def)
  have m: "map_of (file_tags example_tags) (normpath ''/docs//b.txt'') = Some {''draft''}"
    by (simp add: n example_tags_def)
  show ?thesis
    using h m tag_mutations_keep_no_empty_tag_set [OF h, of "''/docs//b.txt''" "''draft''" 3]
    by simp
qed







subsection \<open>The cascade of \<open>remove_tag\<close>\<close>

lemma detach_all_Cons:
  "detach_all D ((f, s) # ft) =
     (if s \<inter> D = {} \<or> s - D \<noteq> {} then (f, s - D) # detach_all D ft else detach_all D ft)"
  by (simp add: detach_all_def)

lemma detach_all_Nil: "detach_all D [] = []"
  by (simp add: detach_all_def)

lemma detach_tag_detach_all: "detach_tag t (detach_all D ft) = detach_all (insert t D) ft"
proof (induction ft)
  case Nil
  then show ?case by (simp add: detach_all_Nil)
next
  case (Cons e ft)
  obtain f s where e: "e = (f, s)" by (cases e)
  have eq: "s - insert t D = s - D - {t}" by blast
  show ?case
  proof (cases "s \<inter> D = {} \<or> s - D \<noteq> {}")
    case False
    then have "\<not> (s \<inter> insert t D = {} \<or> s - insert t D \<noteq> {})" by blast
    with False show ?thesis unfolding e detach_all_Cons using Cons.IH by simp
  next
    case True
    show ?thesis
    proof (cases "t \<in> s - D")
      case in_s: True
      show ?thesis
      proof (cases "s - D - {t} = {}")
        case True
        then have "\<not> (s \<inter> insert t D = {} \<or> s - insert t D \<noteq> {})" using in_s by blast
        with True \<open>s \<inter> D = {} \<or> s - D \<noteq> {}\<close> in_s show ?thesis
          unfolding e detach_all_Cons using Cons.IH by simp
      next
        case False
        then have "s \<inter> insert t D = {} \<or> s - insert t D \<noteq> {}" by blast
        with False \<open>s \<inter> D = {} \<or> s - D \<noteq> {}\<close> in_s show ?thesis
          unfolding e detach_all_Cons using Cons.IH eq by simp
      qed
    next
      case False
      then have eq2: "s - insert t D = s - D" by blast
      have "s \<inter> insert t D = {} \<or> s - insert t D \<noteq> {}" using True False by blast
      with False True show ?thesis
        unfolding e detach_all_Cons using Cons.IH eq2 by auto
    qed
  qed
qed


lemma delete_filter_keys:
  "AList.delete t (filter (\<lambda>(k, v). k \<notin> R) tgs) = filter (\<lambda>(k, v). k \<notin> insert t R) tgs"
  by (induction tgs) auto

lemma keys_filter: "fst ` set (filter (\<lambda>(k, v). k \<notin> R) tgs) = fst ` set tgs - R"
  by force

lemma descendants_self: "t \<in> descendants tgs t"
  by (simp add: descendants_def)

lemma descendants_child:
  "(p, c) \<in> children_rel tgs \<Longrightarrow> descendants tgs c \<subseteq> descendants tgs p"
  by (auto simp: descendants_def intro: converse_rtrancl_into_rtrancl)

lemma descendants_closed:
  "p \<in> descendants tgs t \<Longrightarrow> (p, c) \<in> children_rel tgs \<Longrightarrow> c \<in> descendants tgs t"
  by (auto simp: descendants_def intro: rtrancl_into_rtrancl)

lemma descendants_unfold:
  "descendants tgs t = insert t (\<Union>c \<in> children_rel tgs `` {t}. descendants tgs c)"
proof
  show "descendants tgs t \<subseteq> insert t (\<Union>c \<in> children_rel tgs `` {t}. descendants tgs c)"
  proof
    fix x assume "x \<in> descendants tgs t"
    then have "(t, x) \<in> (children_rel tgs)\<^sup>*" by (simp add: descendants_def)
    then show "x \<in> insert t (\<Union>c \<in> children_rel tgs `` {t}. descendants tgs c)"
      by (cases rule: converse_rtranclE) (auto simp: descendants_def)
  qed
next
  show "insert t (\<Union>c \<in> children_rel tgs `` {t}. descendants tgs c) \<subseteq> descendants tgs t"
    using descendants_child descendants_self by fastforce
qed

lemma descendants_keys:
  "t \<in> fst ` set tgs \<Longrightarrow> descendants tgs t \<subseteq> fst ` set tgs"
proof
  fix x assume t: "t \<in> fst ` set tgs" and "x \<in> descendants tgs t"
  then have "(t, x) \<in> (children_rel tgs)\<^sup>*" by (simp add: descendants_def)
  then show "x \<in> fst ` set tgs"
    by (cases rule: rtranclE) (use t in \<open>force simp: children_rel_def\<close>)+
qed

lemma child_not_ancestor:
  assumes "acyclic (children_rel tgs)" and "(t, c) \<in> children_rel tgs"
  shows "t \<notin> descendants tgs c"
proof
  assume "t \<in> descendants tgs c"
  then have "(c, t) \<in> (children_rel tgs)\<^sup>*" by (simp add: descendants_def)
  with assms(2) have "(t, t) \<in> (children_rel tgs)\<^sup>+" by (rule rtrancl_into_trancl2)
  with assms(1) show False by (simp add: acyclic_def)
qed

lemma unique_parent:
  assumes "distinct (map fst tgs)" and "(p, c) \<in> children_rel tgs" and "(q, c) \<in> children_rel tgs"
  shows "p = q"
proof -
  from assms(2,3) obtain t u where t: "(c, t) \<in> set tgs" "parent t = Some p"
    and u: "(c, u) \<in> set tgs" "parent u = Some q"
    by (auto simp: children_rel_def)
  from assms(1) t(1) u(1) have "t = u" by (rule eq_key_imp_eq_value)
  with t(2) u(2) show ?thesis by simp
qed

lemma sibling_not_descendant:
  assumes d: "distinct (map fst tgs)" and a: "acyclic (children_rel tgs)"
    and c: "(t, c) \<in> children_rel tgs" and c': "(t, c') \<in> children_rel tgs" and ne: "c \<noteq> c'"
  shows "c' \<notin> descendants tgs c"
proof
  assume "c' \<in> descendants tgs c"
  then have "(c, c') \<in> (children_rel tgs)\<^sup>*" by (simp add: descendants_def)
  then show False
  proof (cases rule: rtranclE)
    case base
    with ne show False by simp
  next
    case (step p)
    from unique_parent [OF d step(2) c'] have "p = t" .
    with step(1) have "t \<in> descendants tgs c" by (simp add: descendants_def)
    with child_not_ancestor [OF a c] show False by simp
  qed
qed


lemma detach_all_empty: "detach_all {} ft = ft"
  by (induction ft) (auto simp: detach_all_def)

lemma descendants_insert_keys: "descendants tgs t \<subseteq> insert t (fst ` set tgs)"
proof
  fix x assume "x \<in> descendants tgs t"
  then have "(t, x) \<in> (children_rel tgs)\<^sup>*" by (simp add: descendants_def)
  then show "x \<in> insert t (fst ` set tgs)"
    by (cases rule: rtranclE) (force simp: children_rel_def)+
qed

lemma finite_descendants: "finite (descendants tgs t)"
  using descendants_insert_keys by (rule finite_subset) simp

lemma closed_descendants:
  assumes "children_rel tgs `` R \<subseteq> R" and "c \<in> R"
  shows "descendants tgs c \<subseteq> R"
proof
  fix x assume "x \<in> descendants tgs c"
  then have "(c, x) \<in> (children_rel tgs)\<^sup>*" by (simp add: descendants_def)
  then show "x \<in> R"
    using assms by (induction rule: rtrancl_induct) auto
qed

lemma closed_union_descendants:
  assumes "children_rel tgs `` R \<subseteq> R"
  shows "children_rel tgs `` (R \<union> descendants tgs c) \<subseteq> R \<union> descendants tgs c"
  using assms descendants_closed by fastforce

lemma remove_children_from_remove_tag:
  assumes A: "\<And>R t tm0. children_rel tgs `` R \<subseteq> R \<Longrightarrow> tags tm0 = filter (\<lambda>(k, v). k \<notin> R) tgs \<Longrightarrow>
      file_tags tm0 = detach_all R ft \<Longrightarrow> t \<in> fst ` set tgs \<Longrightarrow> t \<notin> R \<Longrightarrow>
      card (descendants tgs t) \<le> d \<Longrightarrow>
      \<exists>tm'. remove_tag d tm0 t = Ok tm'
        \<and> tags tm' = filter (\<lambda>(k, v). k \<notin> R \<union> descendants tgs t) tgs
        \<and> file_tags tm' = detach_all (R \<union> descendants tgs t) ft"
  shows "children_rel tgs `` R \<subseteq> R \<Longrightarrow> tags tm0 = filter (\<lambda>(k, v). k \<notin> R) tgs \<Longrightarrow>
      file_tags tm0 = detach_all R ft \<Longrightarrow> distinct cs \<Longrightarrow> set cs \<subseteq> fst ` set tgs - R \<Longrightarrow>
      \<forall>c \<in> set cs. card (descendants tgs c) \<le> d \<Longrightarrow>
      \<forall>c \<in> set cs. \<forall>c' \<in> set cs. c \<noteq> c' \<longrightarrow> c' \<notin> descendants tgs c \<Longrightarrow>
      \<exists>tm'. remove_children d tm0 cs = Ok tm'
        \<and> tags tm' = filter (\<lambda>(k, v). k \<notin> R \<union> (\<Union>c \<in> set cs. descendants tgs c)) tgs
        \<and> file_tags tm' = detach_all (R \<union> (\<Union>c \<in> set cs. descendants tgs c)) ft"
proof (induction cs arbitrary: R tm0)
  case Nil
  then show ?case by simp
next
  case (Cons c cs)
  from Cons.prems have c: "c \<in> fst ` set tgs" "c \<notin> R" "card (descendants tgs c) \<le> d" by auto
  from A [OF Cons.prems(1,2,3) c] obtain tm1 where
    tm1: "remove_tag d tm0 c = Ok tm1"
      "tags tm1 = filter (\<lambda>(k, v). k \<notin> R \<union> descendants tgs c) tgs"
      "file_tags tm1 = detach_all (R \<union> descendants tgs c) ft"
    by blast
  have cl: "children_rel tgs `` (R \<union> descendants tgs c) \<subseteq> R \<union> descendants tgs c"
    using Cons.prems(1) by (rule closed_union_descendants)
  have sub: "set cs \<subseteq> fst ` set tgs - (R \<union> descendants tgs c)"
    using Cons.prems(4,5,7) by auto
  from Cons.IH [OF cl tm1(2,3) _ sub] Cons.prems(4,6,7) obtain tm2 where
    tm2: "remove_children d tm1 cs = Ok tm2"
      "tags tm2 = filter (\<lambda>(k, v). k \<notin> R \<union> descendants tgs c \<union> (\<Union>c \<in> set cs. descendants tgs c)) tgs"
      "file_tags tm2 = detach_all (R \<union> descendants tgs c \<union> (\<Union>c \<in> set cs. descendants tgs c)) ft"
    by auto
  have eq: "R \<union> descendants tgs c \<union> (\<Union>c \<in> set cs. descendants tgs c)
          = R \<union> (\<Union>c \<in> set (c # cs). descendants tgs c)" by auto
  show ?case using tm1(1) tm2 unfolding eq by simp
qed

lemma children_list:
  "set (map fst (filter (\<lambda>(tid, tg). parent tg = Some t) (filter (\<lambda>(k, v). k \<notin> R) tgs)))
   = children_rel tgs `` {t} - R"
  by (force simp: children_rel_def)

lemma children_distinct:
  "distinct (map fst tgs) \<Longrightarrow>
   distinct (map fst (filter (\<lambda>(tid, tg). parent tg = Some t) (filter (\<lambda>(k, v). k \<notin> R) tgs)))"
  by (simp add: distinct_map_filter)

lemma remove_tag_minus:
  assumes dk: "distinct (map fst tgs)" and ac: "acyclic (children_rel tgs)"
  shows "children_rel tgs `` R \<subseteq> R \<Longrightarrow> tags tm0 = filter (\<lambda>(k, v). k \<notin> R) tgs \<Longrightarrow>
      file_tags tm0 = detach_all R ft \<Longrightarrow> t \<in> fst ` set tgs \<Longrightarrow> t \<notin> R \<Longrightarrow>
      card (descendants tgs t) \<le> d \<Longrightarrow>
      \<exists>tm'. remove_tag d tm0 t = Ok tm'
        \<and> tags tm' = filter (\<lambda>(k, v). k \<notin> R \<union> descendants tgs t) tgs
        \<and> file_tags tm' = detach_all (R \<union> descendants tgs t) ft"
proof (induction d arbitrary: R t tm0)
  case 0
  have "card (descendants tgs t) > 0"
    using finite_descendants descendants_self by (metis card_gt_0_iff empty_iff)
  with 0 show ?case by simp
next
  case (Suc d)
  define cs where "cs = map fst (filter (\<lambda>(tid, tg). parent tg = Some t) (tags tm0))"
  have cs_set: "set cs = children_rel tgs `` {t} - R"
    unfolding cs_def Suc.prems(2) by (rule children_list)
  have cs_dist: "distinct cs"
    unfolding cs_def Suc.prems(2) using dk by (rule children_distinct)
  have cs_keys: "set cs \<subseteq> fst ` set tgs - R"
    unfolding cs_set by (force simp: children_rel_def)
  have cs_card: "\<forall>c \<in> set cs. card (descendants tgs c) \<le> d"
  proof
    fix c assume "c \<in> set cs"
    then have e: "(t, c) \<in> children_rel tgs" using cs_set by auto
    have "descendants tgs c \<subset> descendants tgs t"
      using descendants_child [OF e] child_not_ancestor [OF ac e] descendants_self by blast
    then have "card (descendants tgs c) < card (descendants tgs t)"
      using finite_descendants by (rule psubset_card_mono [rotated])
    with Suc.prems(6) show "card (descendants tgs c) \<le> d" by simp
  qed
  have cs_sib: "\<forall>c \<in> set cs. \<forall>c' \<in> set cs. c \<noteq> c' \<longrightarrow> c' \<notin> descendants tgs c"
    using cs_set sibling_not_descendant [OF dk ac] by auto
  have "\<exists>tm'. remove_children d tm0 cs = Ok tm'
        \<and> tags tm' = filter (\<lambda>(k, v). k \<notin> R \<union> (\<Union>c \<in> set cs. descendants tgs c)) tgs
        \<and> file_tags tm' = detach_all (R \<union> (\<Union>c \<in> set cs. descendants tgs c)) ft"
    by (rule remove_children_from_remove_tag [OF Suc.IH Suc.prems(1,2,3) cs_dist cs_keys cs_card cs_sib])
  then obtain tm1 where tm1: "remove_children d tm0 cs = Ok tm1"
      "tags tm1 = filter (\<lambda>(k, v). k \<notin> R \<union> (\<Union>c \<in> set cs. descendants tgs c)) tgs"
      "file_tags tm1 = detach_all (R \<union> (\<Union>c \<in> set cs. descendants tgs c)) ft"
    by blast
  define R' where "R' = R \<union> (\<Union>c \<in> set cs. descendants tgs c)"
  have t_notin: "t \<notin> R'"
    unfolding R'_def using Suc.prems(5) cs_set child_not_ancestor [OF ac] by auto
  have t_in0: "t \<in> fst ` set (tags tm0)"
    unfolding Suc.prems(2) keys_filter using Suc.prems(4,5) by simp
  have t_in1: "t \<in> fst ` set (tags tm1)"
    unfolding tm1(2) R'_def [symmetric] keys_filter using Suc.prems(4) t_notin by simp
  have ins: "insert t R' = R \<union> descendants tgs t"
  proof -
    have "(\<Union>c \<in> children_rel tgs `` {t} \<inter> R. descendants tgs c) \<subseteq> R"
      using closed_descendants [OF Suc.prems(1)] by blast
    then show ?thesis
      unfolding R'_def cs_set descendants_unfold [of tgs t] by blast
  qed
  have "remove_tag (Suc d) tm0 t =
        Ok (tag_save_data (tm1\<lparr>file_tags := detach_tag t (file_tags tm1),
                                 tags := AList.delete t (tags tm1)\<rparr>))"
    using t_in0 t_in1 tm1(1) by (simp add: cs_def [symmetric] Let_def)
  moreover have "AList.delete t (tags tm1) = filter (\<lambda>(k, v). k \<notin> R \<union> descendants tgs t) tgs"
    unfolding tm1(2) R'_def [symmetric] delete_filter_keys ins ..
  moreover have "detach_tag t (file_tags tm1) = detach_all (R \<union> descendants tgs t) ft"
    unfolding tm1(3) R'_def [symmetric] detach_tag_detach_all ins ..
  ultimately show ?case by (simp add: tag_save_data_def)
qed

lemma example_tags_acyclic: "acyclic (children_rel (tags example_tags))"
proof (rule acyclicI_order [where f = "\<lambda>s. if s = ''work'' then 3 else if s = ''draft'' then 2 else (1::nat)"])
  fix a b assume "(a, b) \<in> children_rel (tags example_tags)"
  then obtain t where "(b, t) \<in> set (tags example_tags)" "parent t = Some a"
    unfolding children_rel_def by blast
  then have "(a, b) = (''work'', ''draft'') \<or> (a, b) = (''draft'', ''notes'')"
    unfolding example_tags_def by (simp, elim disjE) simp_all
  then show "(if b = ''work'' then 3 else if b = ''draft'' then 2 else (1::nat))
           < (if a = ''work'' then 3 else if a = ''draft'' then 2 else 1)"
    by (elim disjE) simp_all
qed

text \<open>
  Claim C7, as stated, fails on a store that already holds a reference to a tag id absent
  from the tag map: \<open>remove_tag\<close> detaches the ids it deletes and no other, so the
  reference to \<open>ghost\<close> is still there afterwards.
\<close>

theorem remove_tag_dangling_counterexample:
  "acyclic (children_rel (tags example_dangling))
   \<and> remove_tag 2 example_dangling ''work'' =
       Ok \<lparr>tags = [], file_tags = [(''/docs/a.txt'', {''ghost''})],
           tags_file = Some ([], [(''/docs/a.txt'', {''ghost''})])\<rparr>
   \<and> ''ghost'' \<notin> fst ` set ([] :: (string \<times> tag) list)"
proof -
  have "children_rel (tags example_dangling) = {}"
    by (auto simp: children_rel_def example_dangling_def)
  then have "acyclic (children_rel (tags example_dangling))" by (simp add: acyclic_def)
  moreover have "remove_tag 2 example_dangling ''work'' =
       Ok \<lparr>tags = [], file_tags = [(''/docs/a.txt'', {''ghost''})],
           tags_file = Some ([], [(''/docs/a.txt'', {''ghost''})])\<rparr>"
    by (simp add: example_dangling_def tag_save_data_def eval_nat_numeral insert_Diff_if)
  ultimately show ?thesis by simp
qed

text \<open>
  Claim C7, amended. In a tag store with unique tag ids whose parent references are
  acyclic, and with a call stack deeper than the number of tags, \<open>remove_tag\<close> on an
  existing id returns; the tag map loses exactly the tag and its transitive descendants,
  each deleted id is taken out of every file's tag set (entries left empty are dropped), so
  no file references a deleted id, and if every referenced id existed before, every
  referenced id exists afterwards. On an id that is not in the tag map \<open>remove_tag\<close>
  raises \<open>ValueError\<close> and leaves the store as it was.
\<close>

theorem remove_tag_cascade:
  assumes "distinct (map fst (tags tm))" and "acyclic (children_rel (tags tm))"
    and "length (tags tm) < depth"
  shows "(tag_id \<in> fst ` set (tags tm) \<longrightarrow>
           (\<exists>tm'. remove_tag depth tm tag_id = Ok tm'
              \<and> tags tm' = filter (\<lambda>(tid, t). tid \<notin> descendants (tags tm) tag_id) (tags tm)
              \<and> file_tags tm' = detach_all (descendants (tags tm) tag_id) (file_tags tm)
              \<and> (\<forall>(file_path, ids) \<in> set (file_tags tm'). ids \<inter> descendants (tags tm) tag_id = {})
              \<and> (tags_exist tm \<longrightarrow> tags_exist tm')))
       \<and> (tag_id \<notin> fst ` set (tags tm) \<longrightarrow>
            remove_tag depth tm tag_id = Raised (ValueError tag_id) tm)"
proof (intro conjI impI)
  assume "tag_id \<notin> fst ` set (tags tm)"
  moreover from assms(3) obtain d where "depth = Suc d" by (cases depth) auto
  ultimately show "remove_tag depth tm tag_id = Raised (ValueError tag_id) tm" by simp
next
  assume t: "tag_id \<in> fst ` set (tags tm)"
  let ?D = "descendants (tags tm) tag_id"
  have "card ?D \<le> card (fst ` set (tags tm))"
    using descendants_keys [OF t] by (simp add: card_mono)
  also have "\<dots> \<le> length (tags tm)"
    by (metis card_image_le card_length le_trans List.finite_set)
  finally have c: "card ?D \<le> depth" using assms(3) by simp
  have "\<exists>tm'. remove_tag depth tm tag_id = Ok tm'
        \<and> tags tm' = filter (\<lambda>(k, v). k \<notin> {} \<union> ?D) (tags tm)
        \<and> file_tags tm' = detach_all ({} \<union> ?D) (file_tags tm)"
    by (rule remove_tag_minus [OF assms(1,2) _ _ _ t _ c]) (simp_all add: detach_all_empty)
  then obtain tm' where r: "remove_tag depth tm tag_id = Ok tm'"
    "tags tm' = filter (\<lambda>(tid, t). tid \<notin> ?D) (tags tm)"
    "file_tags tm' = detach_all ?D (file_tags tm)"
    by auto
  have d: "\<forall>(file_path, ids) \<in> set (file_tags tm'). ids \<inter> ?D = {}"
    unfolding r(3) by (auto simp: detach_all_def)
  have e: "tags_exist tm \<longrightarrow> tags_exist tm'"
    unfolding tags_exist_def r(2,3) keys_filter by (auto simp: detach_all_def list_all_iff)
  show "\<exists>tm'. remove_tag depth tm tag_id = Ok tm'
              \<and> tags tm' = filter (\<lambda>(tid, t). tid \<notin> ?D) (tags tm)
              \<and> file_tags tm' = detach_all ?D (file_tags tm)
              \<and> (\<forall>(file_path, ids) \<in> set (file_tags tm'). ids \<inter> ?D = {})
              \<and> (tags_exist tm \<longrightarrow> tags_exist tm')"
    using r d e by blast
qed

theorem remove_tag_cascade_witness:
  "distinct (map fst (tags example_tags))
   \<and> acyclic (children_rel (tags example_tags))
   \<and> length (tags example_tags) < 5
   \<and> tags_exist example_tags
   \<and> ''draft'' \<in> fst ` set (tags example_tags)
   \<and> ''nosuch'' \<notin> fst ` set (tags example_tags)
   \<and> map fst (tags (state_of (remove_tag 5 example_tags ''draft''))) = [''work'', ''home'']
   \<and> file_tags (state_of (remove_tag 5 example_tags ''draft''))
        = [(''/docs/a.txt'', {''work'', ''home''}), (''/docs/c.txt'', {''home''})]
   \<and> (\<exists>tm'. remove_tag 5 example_tags ''draft'' = Ok tm'
          \<and> tags tm' = filter (\<lambda>(tid, t). tid \<notin> descendants (tags example_tags) ''draft'')
                          (tags example_tags)
          \<and> file_tags tm' = detach_all (descendants (tags example_tags) ''draft'')
                               (file_tags example_tags)
          \<and> (\<forall>(file_path, ids) \<in> set (file_tags tm').
                 ids \<inter> descendants (tags example_tags) ''draft'' = {})
          \<and> tags_exist tm')
   \<and> remove_tag 5 example_tags ''nosuch'' = Raised (ValueError ''nosuch'') example_tags"
proof -
  have h1: "distinct (map fst (tags example_tags))" by (simp add: example_tags_def)
  have h3: "length (tags example_tags) < 5" by (simp add: example_tags_def)
  have h4: "tags_exist example_tags" by (simp add: tags_exist_def example_tags_def)
  have h5: "''draft'' \<in> fst ` set (tags example_tags)" by (simp add: example_tags_def)
  have h6: "''nosuch'' \<notin> fst ` set (tags example_tags)" by (simp add: example_tags_def)
  have e1: "map fst (tags (state_of (remove_tag 5 example_tags ''draft''))) = [''work'', ''home'']"
    by (simp add: example_tags_def tag_save_data_def eval_nat_numeral insert_Diff_if)
  have e2: "file_tags (state_of (remove_tag 5 example_tags ''draft''))
        = [(''/docs/a.txt'', {''work'', ''home''}), (''/docs/c.txt'', {''home''})]"
    by (simp add: example_tags_def tag_save_data_def eval_nat_numeral insert_Diff_if)
  note c = remove_tag_cascade [OF h1 example_tags_acyclic h3]
  have c1: "\<exists>tm'. remove_tag 5 example_tags ''draft'' = Ok tm'
          \<and> tags tm' = filter (\<lambda>(tid, t). tid \<notin> descendants (tags example_tags) ''draft'')
                          (tags example_tags)
          \<and> file_tags tm' = detach_all (descendants (tags example_tags) ''draft'')
                               (file_tags example_tags)
          \<and> (\<forall>(file_path, ids) \<in> set (file_tags tm').
                 ids \<inter> descendants (tags example_tags) ''draft'' = {})
          \<and> tags_exist tm'"
    using c [of "''draft''"] h5 h4 by simp
  have c2: "remove_tag 5 example_tags ''nosuch'' = Raised (ValueError ''nosuch'') example_tags"
    using c [of "''nosuch''"] h6 by simp
  show ?thesis
    using h1 example_tags_acyclic h3 h4 h5 h6 e1 e2 c1 c2 by (intro conjI)
qed

section \<open>Properties of the file inventory\<close>

subsection \<open>Notifications and the removal loops\<close>

lemma notify_fields [simp]:
  "files (notify_file_change st t a b) = files st"
  "directories (notify_file_change st t a b) = directories st"
  "storage (notify_file_change st t a b) = storage st"
  "root_dir (notify_file_change st t a b) = root_dir st"
  "include_patterns (notify_file_change st t a b) = include_patterns st"
  "exclude_patterns (notify_file_change st t a b) = exclude_patterns st"
  "recursive (notify_file_change st t a b) = recursive st"
  "file_change_callbacks (notify_file_change st t a b) = file_change_callbacks st"
  "emitted (notify_file_change st t a b) = emitted st @ [(t, a, b)]"
  by (simp_all add: notify_file_change_def Let_def)

lemma save_fields [simp]:
  "files (save_data st) = files st"
  "directories (save_data st) = directories st"
  "root_dir (save_data st) = root_dir st"
  "include_patterns (save_data st) = include_patterns st"
  "exclude_patterns (save_data st) = exclude_patterns st"
  "recursive (save_data st) = recursive st"
  "file_change_callbacks (save_data st) = file_change_callbacks st"
  "emitted (save_data st) = emitted st"
  "world (save_data st) = world st"
  "stdout (save_data st) = stdout st"
  by (simp_all add: save_data_def)







subsection \<open>Callbacks\<close>



lemma same_index_refl: "same_index s s"
  by (simp add: same_index_def)















text \<open>
  In the example inventory the first callback raises at every notification; the second
  still receives all six notifications of the cascade.
\<close>

lemma recording_callback_after_failing_callback:
  "world (on_deleted example_env example_inventory deleted_proj)
     = [(''deleted'', ''/root/proj/a.txt'', None),
           (''deleted'', ''/root/proj/src/b.txt'', None),
           (''deleted'', ''/root/proj/doc/c.txt'', None),
           (''directory_deleted'', ''/root/proj/src'', None),
           (''directory_deleted'', ''/root/proj/doc'', None),
           (''directory_deleted'', ''/root/proj'', None)]"
  by (simp add: on_deleted_def example_inventory_def example_env_def deleted_proj_def abspath_def normpath_def
      startswith_def Let_def notify_file_change_def failing_callback_def recording_callback_def save_data_def)

subsection \<open>Moves\<close>

lemma normpath_nonempty: "normpath p \<noteq> []"
  by (simp add: normpath_def Let_def)

lemma abspath_nonempty: "abspath e p \<noteq> []"
  by (simp add: abspath_def normpath_nonempty)

lemma relpath_defined: "p \<noteq> [] \<Longrightarrow> \<exists>r. relpath e p start = Some r"
  by (simp add: relpath_def Let_def)

lemma should_include_file_defined:
  "p \<noteq> [] \<Longrightarrow> \<exists>b. should_include_file e st p = Some b"
  using relpath_defined [of p e "root_dir st"] by (auto simp: should_include_file_def)

lemma should_include_directory_defined:
  "p \<noteq> [] \<Longrightarrow> \<exists>b. should_include_directory e st p = Some b"
  using relpath_defined [of p e "root_dir st"] by (auto simp: should_include_directory_def)

lemma should_include_file_files_update [simp]:
  "should_include_file e (st\<lparr>files := f\<rparr>) p = should_include_file e st p"
  by (simp add: should_include_file_def)

lemma should_include_directory_directories_update [simp]:
  "should_include_directory e (st\<lparr>directories := d\<rparr>) p = should_include_directory e st p"
  by (simp add: should_include_directory_def)

lemma add_file_fields:
  "directories (add_file e st p) = directories st"
  "emitted (add_file e st p) = emitted st"
  "files (add_file e st p) =
     (case fs_node_at e (abspath e p) of
        Some (FsFile sz ct mt) \<Rightarrow>
          (case relpath e (abspath e p) (root_dir st) of
             Some rel \<Rightarrow> AList.update (abspath e p)
                \<lparr>file_size = sz, created_time = ct, modified_time = mt, relative_path = rel\<rparr> (files st)
           | None \<Rightarrow> files st)
      | _ \<Rightarrow> files st)"
  by (auto simp: add_file_def Let_def split: option.splits fs_node.splits)

text \<open>Facts for evaluating the examples.\<close>

lemmas path_eval = abspath_def normpath_def startswith_def relpath_def Let_def
lemmas glob_eval = fnmatch_def class_stuff_def lstrip_def rstrip_def replace_backslash_def

lemmas inventory_eval = example_inventory_def example_env_def example_env_todo_def
  moved_notes_def moved_notes_md_def moved_proj_def no_info_def
  failing_callback_def recording_callback_def
lemmas handler_eval = on_moved_def add_file_def notify_file_change_def save_data_def
  should_include_file_def should_include_directory_def file_decision_def directory_decision_def
  fs_node_at_def dirname_def

text \<open>
  Claim C9. When the source of a \<open>Moved\<close> event is a tracked directory, \<open>on_moved\<close>
  returns and leaves the file map exactly as it was, records under the source included;
  only the directory set changes: the source is removed and the destination may be added.
\<close>

theorem on_moved_directory_keeps_files:
  assumes "abspath e (src_path ev) \<in> set (directories st)"
  shows "\<exists>st'. on_moved e st ev = Ok st' \<and> files st' = files st
          \<and> (directories st' = removeAll (abspath e (src_path ev)) (directories st)
              \<or> directories st' = List.insert (abspath e (dest_path ev))
                                    (removeAll (abspath e (src_path ev)) (directories st)))"
proof -
  obtain b where "should_include_directory e st (abspath e (dest_path ev)) = Some b"
    using should_include_directory_defined [OF abspath_nonempty] by blast
  then show ?thesis
    using assms by (cases b) (simp_all add: on_moved_def Let_def)
qed

theorem on_moved_directory_keeps_files_witness:
  "abspath example_env (src_path moved_proj) \<in> set (directories example_inventory)
   \<and> files (state_of (on_moved example_env example_inventory moved_proj)) = files example_inventory
   \<and> ''/root/proj/a.txt'' \<in> fst ` set (files (state_of (on_moved example_env example_inventory moved_proj)))
   \<and> directories (state_of (on_moved example_env example_inventory moved_proj))
      = [''/root/work'', ''/root'', ''/root/proj/src'', ''/root/lib'', ''/root/proj/doc'']"
proof -
  have h: "abspath example_env (src_path moved_proj) \<in> set (directories example_inventory)"
    by (simp add: inventory_eval path_eval)
  have d: "directories (state_of (on_moved example_env example_inventory moved_proj))
      = [''/root/work'', ''/root'', ''/root/proj/src'', ''/root/lib'', ''/root/proj/doc'']"
    by (simp add: inventory_eval handler_eval path_eval glob_eval)
  have k: "''/root/proj/a.txt'' \<in> fst ` set (files example_inventory)"
    by (simp add: example_inventory_def)
  from on_moved_directory_keeps_files [OF h] d k h show ?thesis by auto
qed

text \<open>
  Claim C4, as stated, fails when the destination is accepted by the patterns and is not a
  regular file on disk when the event is handled: \<open>_add_file\<close> writes no record, and
  \<open>moved\<close> is emitted all the same.
\<close>

theorem on_moved_accepted_absent_counterexample:
  "abspath example_env (src_path moved_notes) \<in> fst ` set (files example_inventory)
   \<and> abspath example_env (src_path moved_notes) \<notin> set (directories example_inventory)
   \<and> should_include_file example_env example_inventory (abspath example_env (dest_path moved_notes))
       = Some True
   \<and> map fst (files (state_of (on_moved example_env example_inventory moved_notes)))
       = [''/root/proj/a.txt'', ''/root/proj/src/b.txt'', ''/root/proj/doc/c.txt'']
   \<and> emitted (state_of (on_moved example_env example_inventory moved_notes))
       = [(''moved'', ''/root/notes.txt'', Some ''/root/todo.txt'')]"
  by (simp add: inventory_eval handler_eval path_eval glob_eval)

text \<open>
  Claim C4, amended. When the source of a \<open>Moved\<close> event is a tracked file and not a
  tracked directory, \<open>on_moved\<close> returns and removes the record of the source. If the
  patterns accept the destination, exactly one \<open>moved\<close> notification with source and
  destination is emitted, and the record of the destination is written if the destination
  is a regular file on disk, with its \<open>stat\<close> data and relative path (no record is
  written otherwise). If the patterns reject the destination, no record is written and
  exactly one \<open>deleted\<close> notification for the source is emitted.
\<close>

theorem on_moved_tracked_file:
  assumes "abspath e (src_path ev) \<notin> set (directories st)"
    and "abspath e (src_path ev) \<in> fst ` set (files st)"
  shows "(\<exists>accepted. should_include_file e st (abspath e (dest_path ev)) = Some accepted)
       \<and> (\<exists>st'. on_moved e st ev = Ok st'
         \<and> directories st' = directories st
         \<and> (should_include_file e st (abspath e (dest_path ev)) = Some True \<longrightarrow>
               emitted st' = emitted st
                  @ [(''moved'', abspath e (src_path ev), Some (abspath e (dest_path ev)))]
             \<and> (case fs_node_at e (abspath e (abspath e (dest_path ev))) of
                  Some (FsFile sz ct mt) \<Rightarrow>
                    \<exists>rel. relpath e (abspath e (abspath e (dest_path ev))) (root_dir st) = Some rel
                      \<and> files st' = AList.update (abspath e (abspath e (dest_path ev)))
                             \<lparr>file_size = sz, created_time = ct, modified_time = mt, relative_path = rel\<rparr>
                             (AList.delete (abspath e (src_path ev)) (files st))
                | _ \<Rightarrow> files st' = AList.delete (abspath e (src_path ev)) (files st)))
         \<and> (should_include_file e st (abspath e (dest_path ev)) = Some False \<longrightarrow>
               emitted st' = emitted st @ [(''deleted'', abspath e (src_path ev), None)]
             \<and> files st' = AList.delete (abspath e (src_path ev)) (files st)))"
proof -
  let ?src = "abspath e (src_path ev)" and ?dst = "abspath e (dest_path ev)"
  obtain b where b: "should_include_file e st ?dst = Some b"
    using should_include_file_defined [OF abspath_nonempty] by blast
  show ?thesis
  proof (cases b)
    case False
    with b assms show ?thesis by (auto simp: on_moved_def Let_def)
  next
    case True
    obtain rel where rel: "relpath e (abspath e ?dst) (root_dir st) = Some rel"
      using relpath_defined [OF abspath_nonempty] by blast
    let ?st1 = "st\<lparr>files := AList.delete ?src (files st)\<rparr>"
    have m: "on_moved e st ev = Ok (save_data (notify_file_change (add_file e ?st1 ?dst) ''moved'' ?src (Some ?dst)))"
      using b True assms by (simp add: on_moved_def Let_def)
    show ?thesis
      using b True rel unfolding m
      by (auto simp: add_file_fields split: option.splits fs_node.splits)
  qed
qed

theorem on_moved_tracked_file_witness:
  "abspath example_env_todo (src_path moved_notes) \<notin> set (directories example_inventory)
   \<and> abspath example_env_todo (src_path moved_notes) \<in> fst ` set (files example_inventory)
   \<and> should_include_file example_env_todo example_inventory
         (abspath example_env_todo (dest_path moved_notes)) = Some True
   \<and> should_include_file example_env_todo example_inventory
         (abspath example_env_todo (dest_path moved_notes_md)) = Some False
   \<and> files (state_of (on_moved example_env_todo example_inventory moved_notes))
       = [(''/root/proj/a.txt'', no_info\<lparr>relative_path := ''proj/a.txt''\<rparr>),
          (''/root/proj/src/b.txt'', no_info\<lparr>relative_path := ''proj/src/b.txt''\<rparr>),
          (''/root/proj/doc/c.txt'', no_info\<lparr>relative_path := ''proj/doc/c.txt''\<rparr>),
          (''/root/todo.txt'',
           \<lparr>file_size = 7, created_time = 1, modified_time = 2, relative_path = ''todo.txt''\<rparr>)]
   \<and> emitted (state_of (on_moved example_env_todo example_inventory moved_notes))
       = [(''moved'', ''/root/notes.txt'', Some ''/root/todo.txt'')]
   \<and> map fst (files (state_of (on_moved example_env_todo example_inventory moved_notes_md)))
       = [''/root/proj/a.txt'', ''/root/proj/src/b.txt'', ''/root/proj/doc/c.txt'']
   \<and> emitted (state_of (on_moved example_env_todo example_inventory moved_notes_md))
       = [(''deleted'', ''/root/notes.txt'', None)]"
proof -
  have s: "abspath example_env_todo (src_path moved_notes) = ''/root/notes.txt''"
    "abspath example_env_todo (src_path moved_notes_md) = ''/root/notes.txt''"
    "abspath example_env_todo (dest_path moved_notes) = ''/root/todo.txt''"
    "abspath example_env_todo (dest_path moved_notes_md) = ''/root/notes.md''"
    "abspath example_env_todo ''/root/todo.txt'' = ''/root/todo.txt''"
    by (simp_all add: inventory_eval path_eval)
  have h1: "abspath example_env_todo (src_path moved_notes) \<notin> set (directories example_inventory)"
    "abspath example_env_todo (src_path moved_notes_md) \<notin> set (directories example_inventory)"
    unfolding s by (simp_all add: example_inventory_def)
  have h2: "abspath example_env_todo (src_path moved_notes) \<in> fst ` set (files example_inventory)"
    "abspath example_env_todo (src_path moved_notes_md) \<in> fst ` set (files example_inventory)"
    unfolding s by (simp_all add: example_inventory_def)
  have a: "should_include_file example_env_todo example_inventory ''/root/todo.txt'' = Some True"
    by (simp add: should_include_file_def file_decision_def inventory_eval path_eval glob_eval)
  have r: "should_include_file example_env_todo example_inventory ''/root/notes.md'' = Some False"
    by (simp add: should_include_file_def file_decision_def inventory_eval path_eval glob_eval)
  have n: "fs_node_at example_env_todo ''/root/todo.txt'' = Some (FsFile 7 1 2)"
    by (simp add: fs_node_at_def example_env_todo_def)
  have p: "relpath example_env_todo ''/root/todo.txt'' (root_dir example_inventory) = Some ''todo.txt''"
    by (simp add: inventory_eval path_eval)
  have f: "AList.update ''/root/todo.txt'' v (AList.delete ''/root/notes.txt'' (files example_inventory))
      = [(''/root/proj/a.txt'', no_info\<lparr>relative_path := ''proj/a.txt''\<rparr>),
          (''/root/proj/src/b.txt'', no_info\<lparr>relative_path := ''proj/src/b.txt''\<rparr>),
          (''/root/proj/doc/c.txt'', no_info\<lparr>relative_path := ''proj/doc/c.txt''\<rparr>),
          (''/root/todo.txt'', v)]" for v
    by (simp add: example_inventory_def)
  have g: "map fst (AList.delete ''/root/notes.txt'' (files example_inventory))
      = [''/root/proj/a.txt'', ''/root/proj/src/b.txt'', ''/root/proj/doc/c.txt'']"
    by (simp add: example_inventory_def)
  have e: "emitted example_inventory = []" by (simp add: example_inventory_def)
  from on_moved_tracked_file [OF h1(1) h2(1)] on_moved_tracked_file [OF h1(2) h2(2)]
  show ?thesis
    unfolding s by (auto simp: a r n p f g e h1 [unfolded s] h2 [unfolded s] simp del: image_eqI)
qed

subsection \<open>Persistence\<close>

text \<open>
  Claim C5, as stated, fails for a manager constructed with rules of its own: \<open>_load_data\<close>
  takes the include list from the snapshot only if its own is empty or \<open>["*"]\<close>, and the
  exclude list only if its own is empty. A manager constructed with \<open>*.py\<close> and
  \<open>build/*\<close> and the same root keeps them when it loads a snapshot saved with \<open>*.txt\<close>.
\<close>

theorem load_after_save_keeps_own_rules_counterexample:
  "root_dir python_loader = root_dir example_inventory
   \<and> include_patterns example_inventory = [''*.txt'']
   \<and> exclude_patterns example_inventory = []
   \<and> include_patterns (load_data (python_loader\<lparr>storage := storage (save_data example_inventory)\<rparr>))
       = [''*.py'']
   \<and> exclude_patterns (load_data (python_loader\<lparr>storage := storage (save_data example_inventory)\<rparr>))
       = [''build/*'']"
  by (simp add: load_data_def save_data_def python_loader_def default_loader_def example_inventory_def)

text \<open>
  Claim C5, amended. When a manager loads the snapshot that another state saved: if the
  root of the loader is the root that was saved, the file map, the directory set and the
  recursive flag of the loader are those saved, the include list is the saved one if the
  loader's own include list is empty or \<open>["*"]\<close> and the loader's own otherwise, and the
  exclude list is the saved one if the loader's own is empty and the loader's own
  otherwise; if the roots differ, loading changes nothing.
\<close>

theorem load_after_save:
  assumes "storage l = storage (save_data s)"
  shows "(root_dir l = root_dir s \<longrightarrow>
            files (load_data l) = files s
          \<and> set (directories (load_data l)) = set (directories s)
          \<and> (distinct (directories s) \<longrightarrow> directories (load_data l) = directories s)
          \<and> recursive (load_data l) = recursive s
          \<and> include_patterns (load_data l)
              = (if include_patterns l = [] \<or> include_patterns l = [''*'']
                 then include_patterns s else include_patterns l)
          \<and> exclude_patterns (load_data l)
              = (if exclude_patterns l = [] then exclude_patterns s else exclude_patterns l))
       \<and> (root_dir l \<noteq> root_dir s \<longrightarrow> load_data l = l)"
  using assms by (simp add: load_data_def save_data_def Let_def distinct_remdups_id)

theorem load_after_save_witness:
  "storage (default_loader\<lparr>storage := storage (save_data example_inventory)\<rparr>)
     = storage (save_data example_inventory)
   \<and> root_dir (default_loader\<lparr>storage := storage (save_data example_inventory)\<rparr>)
       = root_dir example_inventory
   \<and> distinct (directories example_inventory)
   \<and> files (load_data (default_loader\<lparr>storage := storage (save_data example_inventory)\<rparr>))
       = files example_inventory
   \<and> directories (load_data (default_loader\<lparr>storage := storage (save_data example_inventory)\<rparr>))
       = directories example_inventory
   \<and> recursive (load_data (default_loader\<lparr>storage := storage (save_data example_inventory)\<rparr>))
   \<and> include_patterns (load_data (default_loader\<lparr>storage := storage (save_data example_inventory)\<rparr>))
       = [''*.txt'']
   \<and> exclude_patterns (load_data (default_loader\<lparr>storage := storage (save_data example_inventory)\<rparr>))
       = []
   \<and> root_dir (default_loader\<lparr>root_dir := ''/other'', storage := storage (save_data example_inventory)\<rparr>)
       \<noteq> root_dir example_inventory
   \<and> load_data (default_loader\<lparr>root_dir := ''/other'', storage := storage (save_data example_inventory)\<rparr>)
       = default_loader\<lparr>root_dir := ''/other'', storage := storage (save_data example_inventory)\<rparr>"
proof -
  let ?l = "default_loader\<lparr>storage := storage (save_data example_inventory)\<rparr>"
  let ?o = "default_loader\<lparr>root_dir := ''/other'', storage := storage (save_data example_inventory)\<rparr>"
  have h1: "storage ?l = storage (save_data example_inventory)" by simp
  have h2: "storage ?o = storage (save_data example_inventory)" by simp
  have r1: "root_dir ?l = root_dir example_inventory"
    by (simp add: default_loader_def example_inventory_def)
  have r2: "root_dir ?o \<noteq> root_dir example_inventory"
    by (simp add: example_inventory_def)
  have d: "distinct (directories example_inventory)" by (simp add: example_inventory_def)
  have p: "include_patterns ?l = [''*'']" "exclude_patterns ?l = []"
    "include_patterns example_inventory = [''*.txt'']" "exclude_patterns example_inventory = []"
    "recursive example_inventory"
    by (simp_all add: default_loader_def example_inventory_def)
  from load_after_save [OF h1] load_after_save [OF h2] r1 r2 d p h1
  show ?thesis by simp
qed

subsection \<open>The pattern engine\<close>

lemma sub_path_loop_iff:
  "sub_path_loop parts pat \<longleftrightarrow> (\<exists>i < length parts. fnmatch (join_str ''/'' (drop i parts)) pat)"
proof (induction parts)
  case Nil
  then show ?case by simp
next
  case (Cons p ps)
  have "(\<exists>i < length (p # ps). fnmatch (join_str ''/'' (drop i (p # ps))) pat)
        \<longleftrightarrow> fnmatch (join_str ''/'' (p # ps)) pat
            \<or> (\<exists>i < length ps. fnmatch (join_str ''/'' (drop i ps)) pat)"
    by (auto simp: less_Suc_eq_0_disj)
  with Cons show ?case by auto
qed

lemma sub_path_loop_matches:
  "\<not> startswith pat ''/'' \<Longrightarrow> sub_path_loop (split_str CHR ''/'' rel) pat = pattern_matches rel pat"
  by (auto simp: pattern_matches_def sub_path_loop_iff list_ex_iff)

lemma anchored_matches:
  "startswith pat ''/'' \<Longrightarrow> fnmatch rel (lstrip {CHR ''/''} pat) = pattern_matches rel pat"
  by (simp add: pattern_matches_def)

lemma exclude_loop_iff:
  "exclude_loop rel pats acc \<longleftrightarrow>
     acc \<or> (\<exists>p \<in> set pats. pattern_matches rel (lstrip {CHR ''!''} (replace_backslash p)))"
  by (induction rel pats acc rule: exclude_loop.induct)
     (auto simp: Let_def sub_path_loop_matches anchored_matches)

lemma include_loop_iff:
  "include_loop rel pats \<longleftrightarrow> (\<exists>q \<in> set pats. pattern_matches rel q)"
  by (induction rel pats rule: include_loop.induct)
     (auto simp: sub_path_loop_matches anchored_matches)

lemma set_reinclude_patterns:
  "set (reinclude_patterns incl)
     = {drop 2 (replace_backslash q) | q. q \<in> set incl \<and> startswith (replace_backslash q) ''!!''}"
  by (induction incl) (auto simp: Let_def)

lemma set_normal_include_patterns:
  "set (normal_include_patterns incl)
     = {replace_backslash q | q. q \<in> set incl \<and> \<not> startswith (replace_backslash q) ''!!''}"
  by (induction incl) (auto simp: Let_def)

lemma file_decision_iff:
  "file_decision incl excl rel0 \<longleftrightarrow>
     (let rel = replace_backslash rel0 in
      if \<exists>p \<in> set excl. pattern_matches rel (lstrip {CHR ''!''} (replace_backslash p))
      then \<exists>q \<in> set incl. startswith (replace_backslash q) ''!!''
                \<and> pattern_matches rel (drop 2 (replace_backslash q))
      else \<exists>q \<in> set incl. \<not> startswith (replace_backslash q) ''!!''
                \<and> pattern_matches rel (replace_backslash q))"
  by (auto simp: file_decision_def Let_def exclude_loop_iff include_loop_iff
      set_reinclude_patterns set_normal_include_patterns)

lemma current_path_loop_iff:
  "current_path_loop cur parts pat \<longleftrightarrow> (\<exists>c \<in> set (current_paths cur parts). fnmatch c pat)"
  by (induction cur parts pat rule: current_path_loop.induct) (auto simp: Let_def)

lemma dir_include_check_iff:
  "dir_include_check rel incl \<longleftrightarrow> (\<exists>q \<in> set incl. dir_include_hits rel (replace_backslash q))"
  by (induction rel incl rule: dir_include_check.induct) (auto simp: Let_def dir_include_hits_def)

lemma dir_exclude_loop_eq:
  "dir_exclude_loop rel incl excl =
     (if \<exists>p \<in> set excl. dir_pattern_hits rel (lstrip {CHR ''!''} (replace_backslash p))
      then Some (dir_include_check rel incl) else None)"
  by (induction rel incl excl rule: dir_exclude_loop.induct)
     (auto simp: Let_def dir_pattern_hits_def current_path_loop_iff list_ex_iff)

lemma directory_decision_iff:
  "directory_decision incl excl rel0 \<longleftrightarrow>
     (let rel = replace_backslash rel0 in
      \<not> (\<exists>p \<in> set excl. dir_pattern_hits rel (lstrip {CHR ''!''} (replace_backslash p)))
      \<or> (\<exists>q \<in> set incl. dir_include_hits rel (replace_backslash q)))"
  by (auto simp: directory_decision_def Let_def dir_exclude_loop_eq dir_include_check_iff)

lemmas rules_eval = temp_rules_def python_only_def python_without_temp_def default_loader_def
  example_env_def example_env_docs_def

text \<open>
  Claim C2. For every (non-empty) file path, with its path relative to the root: if some
  exclude pattern, its leading \<open>!\<close> stripped, matches the path, the decision is exactly
  whether some reinclude pattern, its \<open>!!\<close> stripped, matches it. So an excluded path that
  a reinclude pattern matches is included, and an excluded path that no reinclude pattern
  matches is excluded, whatever the other include patterns are. With exclude \<open>temp/*\<close> and
  reinclude \<open>!!temp/keep/*\<close>, \<open>temp/keep/file.txt\<close> is included and
  \<open>temp/other/file.txt\<close> is excluded.
\<close>

theorem reinclude_decides_excluded_file:
  assumes "file_path \<noteq> []"
  shows "\<exists>rel. relpath e file_path (root_dir st) = Some rel
       \<and> ((\<exists>p \<in> set (exclude_patterns st).
              pattern_matches (replace_backslash rel) (lstrip {CHR ''!''} (replace_backslash p))) \<longrightarrow>
            should_include_file e st file_path
              = Some (\<exists>q \<in> set (include_patterns st).
                        startswith (replace_backslash q) ''!!''
                        \<and> pattern_matches (replace_backslash rel) (drop 2 (replace_backslash q))))"
proof -
  obtain rel where rel: "relpath e file_path (root_dir st) = Some rel"
    using relpath_defined [OF assms] by blast
  show ?thesis
    using rel by (auto simp: should_include_file_def file_decision_iff Let_def)
qed

theorem reinclude_decides_excluded_file_witness:
  "''/root/temp/keep/file.txt'' \<noteq> [] \<and> ''/root/temp/other/file.txt'' \<noteq> []
   \<and> exclude_patterns temp_rules = [''temp/*'']
   \<and> include_patterns temp_rules = [''!!temp/keep/*'']
   \<and> relpath example_env ''/root/temp/keep/file.txt'' (root_dir temp_rules) = Some ''temp/keep/file.txt''
   \<and> relpath example_env ''/root/temp/other/file.txt'' (root_dir temp_rules) = Some ''temp/other/file.txt''
   \<and> should_include_file example_env temp_rules ''/root/temp/keep/file.txt'' = Some True
   \<and> should_include_file example_env temp_rules ''/root/temp/other/file.txt'' = Some False"
proof -
  have h1: "''/root/temp/keep/file.txt'' \<noteq> []" and h2: "''/root/temp/other/file.txt'' \<noteq> []"
    by simp_all
  have r1: "relpath example_env ''/root/temp/keep/file.txt'' (root_dir temp_rules) = Some ''temp/keep/file.txt''"
    by (simp add: rules_eval path_eval)
  have r2: "relpath example_env ''/root/temp/other/file.txt'' (root_dir temp_rules) = Some ''temp/other/file.txt''"
    by (simp add: rules_eval path_eval)
  have p: "exclude_patterns temp_rules = [''temp/*'']" "include_patterns temp_rules = [''!!temp/keep/*'']"
    by (simp_all add: rules_eval)
  have m1: "pattern_matches ''temp/keep/file.txt'' ''temp/*''"
    by (simp add: pattern_matches_def glob_eval startswith_def)
  have m2: "pattern_matches ''temp/other/file.txt'' ''temp/*''"
    by (simp add: pattern_matches_def glob_eval startswith_def)
  have m3: "pattern_matches ''temp/keep/file.txt'' ''temp/keep/*''"
    by (simp add: pattern_matches_def glob_eval startswith_def)
  have m4: "\<not> pattern_matches ''temp/other/file.txt'' ''temp/keep/*''"
    by (simp add: pattern_matches_def glob_eval startswith_def upt_rec)
  have s: "replace_backslash ''temp/keep/file.txt'' = ''temp/keep/file.txt''"
     "replace_backslash ''temp/other/file.txt'' = ''temp/other/file.txt''"
     "lstrip {CHR ''!''} (replace_backslash ''temp/*'') = ''temp/*''"
     "replace_backslash ''!!temp/keep/*'' = ''!!temp/keep/*''"
    by (simp_all add: glob_eval)
  have a1: "should_include_file example_env temp_rules ''/root/temp/keep/file.txt'' = Some True"
    using reinclude_decides_excluded_file [OF h1, of example_env temp_rules] m1 m3
    by (simp add: r1 p s startswith_def)
  have a2: "should_include_file example_env temp_rules ''/root/temp/other/file.txt'' = Some False"
    using reinclude_decides_excluded_file [OF h2, of example_env temp_rules] m2 m4
    by (simp add: r2 p s startswith_def)
  show ?thesis using h1 h2 p r1 r2 a1 a2 by (intro conjI)
qed

text \<open>
  The values of \<open>current_path\<close> are the directory and its parents: for a relative path
  without empty segments, the joined prefixes of its segments.
\<close>

lemma join_str_snoc:
  "xs \<noteq> [] \<Longrightarrow> join_str sep (xs @ [p]) = join_str sep xs @ sep @ p"
  by (induction sep xs rule: join_str.induct) auto

lemma join_str_nonempty:
  "xs \<noteq> [] \<Longrightarrow> \<forall>x \<in> set xs. x \<noteq> [] \<Longrightarrow> join_str sep xs \<noteq> []"
  by (induction sep xs rule: join_str.induct) auto

lemma current_paths_prefixes_gen:
  "\<forall>x \<in> set (pre @ parts). x \<noteq> [] \<Longrightarrow>
   current_paths (join_str ''/'' pre) parts
     = map (\<lambda>k. join_str ''/'' (pre @ take k parts)) [1 ..< Suc (length parts)]"
proof (induction parts arbitrary: pre)
  case Nil
  then show ?case by simp
next
  case (Cons part parts)
  have cur: "(if join_str ''/'' pre \<noteq> [] then join_str ''/'' pre @ ''/'' else join_str ''/'' pre) @ part
             = join_str ''/'' (pre @ [part])"
  proof (cases "pre = []")
    case True
    then show ?thesis by simp
  next
    case False
    then have "join_str ''/'' pre \<noteq> []" using Cons.prems by (intro join_str_nonempty) auto
    with False show ?thesis by (simp add: join_str_snoc)
  qed
  have ih: "current_paths (join_str ''/'' (pre @ [part])) parts
     = map (\<lambda>k. join_str ''/'' ((pre @ [part]) @ take k parts)) [1 ..< Suc (length parts)]"
    using Cons.prems by (intro Cons.IH) auto
  have sh: "[1 ..< Suc (Suc (length parts))] = 1 # map Suc [1 ..< Suc (length parts)]"
    by (simp add: upt_conv_Cons map_Suc_upt del: upt_Suc)
  have "map (\<lambda>k. join_str ''/'' (pre @ take k (part # parts))) [1 ..< Suc (Suc (length parts))]
      = join_str ''/'' (pre @ [part])
        # map (\<lambda>k. join_str ''/'' ((pre @ [part]) @ take k parts)) [1 ..< Suc (length parts)]"
    unfolding sh by (simp add: comp_def del: upt_Suc)
  then show ?case
    unfolding current_paths.simps Let_def cur ih by simp
qed

lemma current_paths_prefixes:
  "\<forall>x \<in> set parts. x \<noteq> [] \<Longrightarrow>
   current_paths [] parts = map (\<lambda>k. join_str ''/'' (take k parts)) [1 ..< Suc (length parts)]"
  using current_paths_prefixes_gen [of "[]" parts] by simp

text \<open>
  Claim C3, as stated, fails for a directory below an excluded one: with exclude \<open>temp\<close>
  and include \<open>*.py\<close>, no exclude pattern matches \<open>temp/sub\<close>, neither whole nor on a
  suffix of its segments, and the directory is excluded all the same, because the pattern
  matches its parent \<open>temp\<close>.
\<close>

theorem directory_excluded_by_parent_counterexample:
  "exclude_patterns python_without_temp = [''temp'']
   \<and> relpath example_env ''/root/temp/sub'' (root_dir python_without_temp) = Some ''temp/sub''
   \<and> \<not> fnmatch ''temp/sub'' ''temp''
   \<and> \<not> pattern_matches ''temp/sub'' ''temp''
   \<and> should_include_directory example_env python_without_temp ''/root/temp/sub'' = Some False"
proof -
  have "relpath example_env ''/root/temp/sub'' (root_dir python_without_temp) = Some ''temp/sub''"
    by (simp add: rules_eval path_eval)
  moreover have "\<not> fnmatch ''temp/sub'' ''temp''"
    by (simp add: glob_eval)
  moreover have "\<not> pattern_matches ''temp/sub'' ''temp''"
    by (simp add: pattern_matches_def glob_eval startswith_def upt_rec)
  moreover have "should_include_directory example_env python_without_temp ''/root/temp/sub'' = Some False"
    by (simp add: should_include_directory_def directory_decision_def rules_eval path_eval glob_eval)
  moreover have "exclude_patterns python_without_temp = [''temp'']"
    by (simp add: rules_eval)
  ultimately show ?thesis by (intro conjI)
qed

text \<open>
  The scan of a root that holds \<open>docs/x.py\<close> and \<open>a.txt\<close>, with include \<open>*.py\<close> only.
\<close>

lemma scan_example_dirs:
  "directories (state_of (scan_directory example_env_docs python_only ''/root''))
     = [''/root/docs'', ''/root'']"
  by (simp add: scan_directory_def rules_eval path_eval glob_eval handler_eval path_join_def
      python_only_def)

lemma scan_example_files:
  "files (state_of (scan_directory example_env_docs python_only ''/root''))
     = [(''/root/docs/x.py'',
         \<lparr>file_size = 12, created_time = 3, modified_time = 4, relative_path = ''docs/x.py''\<rparr>)]"
  by (simp add: scan_directory_def rules_eval path_eval glob_eval handler_eval path_join_def
      python_only_def)

text \<open>
  Claim C3, amended. For every (non-empty) directory path, with its path relative to the
  root: the directory is included if and only if no exclude pattern (leading \<open>!\<close> and
  trailing \<open>/\<close> and \<open>*\<close> stripped) matches the directory or one of its parents (an
  anchored pattern: the directory only), or some include pattern matches the directory
  (pattern stripped of trailing \<open>/\<close> and \<open>*\<close>) or the form \<open>directory/*\<close>. In particular
  a directory that no rule matches is included. With include \<open>*.py\<close> only, the scan
  tracks the directory \<open>docs\<close> and the file \<open>docs/x.py\<close>.
\<close>

theorem directory_decision_by_ancestors:
  assumes "dir_path \<noteq> []"
  shows "\<exists>rel. relpath e dir_path (root_dir st) = Some rel
       \<and> should_include_directory e st dir_path
           = Some (\<not> (\<exists>p \<in> set (exclude_patterns st).
                        dir_pattern_hits (replace_backslash rel) (lstrip {CHR ''!''} (replace_backslash p)))
                   \<or> (\<exists>q \<in> set (include_patterns st).
                        dir_include_hits (replace_backslash rel) (replace_backslash q)))"
proof -
  obtain rel where rel: "relpath e dir_path (root_dir st) = Some rel"
    using relpath_defined [OF assms] by blast
  show ?thesis
    using rel by (simp add: should_include_directory_def directory_decision_iff Let_def)
qed

theorem directory_decision_by_ancestors_witness:
  "''/root/docs'' \<noteq> [] \<and> ''/root/temp/sub'' \<noteq> []
   \<and> include_patterns python_only = [''*.py''] \<and> exclude_patterns python_only = []
   \<and> should_include_directory example_env_docs python_only ''/root/docs'' = Some True
   \<and> current_paths [] (split_str CHR ''/'' ''temp/sub'') = [''temp'', ''temp/sub'']
   \<and> dir_pattern_hits ''temp/sub'' ''temp''
   \<and> should_include_directory example_env python_without_temp ''/root/temp/sub'' = Some False
   \<and> directories (state_of (scan_directory example_env_docs python_only ''/root''))
       = [''/root/docs'', ''/root'']
   \<and> files (state_of (scan_directory example_env_docs python_only ''/root''))
       = [(''/root/docs/x.py'',
           \<lparr>file_size = 12, created_time = 3, modified_time = 4, relative_path = ''docs/x.py''\<rparr>)]"
proof -
  have h1: "''/root/docs'' \<noteq> []" and h2: "''/root/temp/sub'' \<noteq> []" by simp_all
  have p: "include_patterns python_only = [''*.py'']" "exclude_patterns python_only = []"
    "include_patterns python_without_temp = [''*.py'']" "exclude_patterns python_without_temp = [''temp'']"
    by (simp_all add: rules_eval)
  have r: "relpath example_env ''/root/temp/sub'' (root_dir python_without_temp) = Some ''temp/sub''"
    by (simp add: rules_eval path_eval)
  have c: "current_paths [] (split_str CHR ''/'' ''temp/sub'') = [''temp'', ''temp/sub'']"
    by simp
  have m1: "dir_pattern_hits ''temp/sub'' ''temp''"
    by (simp add: dir_pattern_hits_def glob_eval startswith_def)
  have m2: "\<not> dir_include_hits ''temp/sub'' ''*.py''"
    by (simp add: dir_include_hits_def glob_eval)
  have s: "replace_backslash ''temp/sub'' = ''temp/sub''"
    "lstrip {CHR ''!''} (replace_backslash ''temp'') = ''temp''"
    "replace_backslash ''*.py'' = ''*.py''"
    by (simp_all add: glob_eval)
  have a1: "should_include_directory example_env_docs python_only ''/root/docs'' = Some True"
    using directory_decision_by_ancestors [OF h1, of example_env_docs python_only]
    by (auto simp: p)
  have a2: "should_include_directory example_env python_without_temp ''/root/temp/sub'' = Some False"
    using directory_decision_by_ancestors [OF h2, of example_env python_without_temp] m1 m2
    by (simp add: r p s)
  show ?thesis
    using h1 h2 p(1,2) a1 c m1 a2 scan_example_dirs scan_example_files by (intro conjI)
qed

end
